theory Spec2Isabelle
  imports Main "HOL-Library.Sublist" "HOL-Library.AList"
begin

section \<open>The CRM query processor\<close>

text \<open>
  A shallow embedding of \<^verbatim>\<open>CRMQueryProcessor\<close> (file \<^verbatim>\<open>crmqueryprocessor.py\<close>):
  the SQL sanitizer \<^verbatim>\<open>clean_sql\<close>, the prompt built by \<^verbatim>\<open>enhance_query\<close>,
  the query executor, and the retry loop of \<^verbatim>\<open>process_query\<close>.

  The text-generation service, the database driver and the clock are outside the
  program. They are parameters of the model (the record \<open>env\<close>), and every call to
  them is written to a trace of events, so that "how often" and "in which order" are
  statements about lists. Python exceptions are values: a function that may raise
  returns \<open>exn + 'a\<close>, with \<open>Inl\<close> carrying the exception's message (what
  \<^verbatim>\<open>str(e)\<close> gives). Logging is left out: it changes no value the program returns.
\<close>

subsection \<open>Strings\<close>

text \<open>
  Python strings are sequences of code points; a \<^typ>\<open>char\<close> here is one code point
  below 256. \<open>isspace\<close> is \<^verbatim>\<open>str.isspace\<close> on that range, which is also the class
  \<^verbatim>\<open>\s\<close> of \<^verbatim>\<open>re\<close> on \<^verbatim>\<open>str\<close> patterns: tab to carriage return,
  the separators \<^verbatim>\<open>0x1c\<close> to \<^verbatim>\<open>0x1f\<close>, space, \<^verbatim>\<open>0x85\<close> and \<^verbatim>\<open>0xa0\<close>.
\<close>

definition isspace :: "char \<Rightarrow> bool" where
  "isspace c = (let n = (of_char c :: nat) in
     (9 \<le> n \<and> n \<le> 13) \<or> (28 \<le> n \<and> n \<le> 32) \<or> n = 133 \<or> n = 160)"

definition lstrip :: "string \<Rightarrow> string" where
  "lstrip s = dropWhile isspace s"

definition rstrip :: "string \<Rightarrow> string" where
  "rstrip s = rev (dropWhile isspace (rev s))"

text \<open>\<^verbatim>\<open>s.strip()\<close>\<close>

definition strip :: "string \<Rightarrow> string" where
  "strip s = rstrip (lstrip s)"

text \<open>
  \<^verbatim>\<open>s.lower()\<close>: the capital letters below 256 are \<^verbatim>\<open>A\<close> to \<^verbatim>\<open>Z\<close> and
  \<^verbatim>\<open>0xc0\<close> to \<^verbatim>\<open>0xde\<close> without the multiplication sign \<^verbatim>\<open>0xd7\<close>; each has
  its small letter 32 places further on.
\<close>

definition lower_char :: "char \<Rightarrow> char" where
  "lower_char c = (let n = (of_char c :: nat) in
     if (65 \<le> n \<and> n \<le> 90) \<or> (192 \<le> n \<and> n \<le> 222 \<and> n \<noteq> 215)
     then char_of (n + 32) else c)"

definition lower :: "string \<Rightarrow> string" where
  "lower s = map lower_char s"

text \<open>\<^verbatim>\<open>str(n)\<close> for a Python integer, as an f-string writes it.\<close>

definition digit_char :: "nat \<Rightarrow> char" where
  "digit_char d = char_of (48 + d)"

fun str_nat :: "nat \<Rightarrow> string" where
  "str_nat n = (if n < 10 then [digit_char n] else str_nat (n div 10) @ [digit_char (n mod 10)])"

definition str_int :: "int \<Rightarrow> string" where
  "str_int i = (if i < 0 then ''-'' @ str_nat (nat (- i)) else str_nat (nat i))"

subsection \<open>Regular expressions\<close>

text \<open>
  The two patterns of \<^verbatim>\<open>clean_sql\<close> are built from literal characters, the greedy
  \<^verbatim>\<open>\s*\<close> and the anchor \<^verbatim>\<open>$\<close>. \<open>re_match p s\<close> matches \<open>p\<close> at the start
  of \<open>s\<close> as a backtracking matcher does and returns the text after the match: \<^verbatim>\<open>\s*\<close>
  first takes one more white-space character and gives it back only if the rest of the
  pattern fails; \<^verbatim>\<open>$\<close> (without \<^verbatim>\<open>re.MULTILINE\<close>) holds at the end of the text
  and just before a newline that ends the text.
\<close>

datatype rx = Lit char | SpaceStar | EndAnchor

fun re_match :: "rx list \<Rightarrow> string \<Rightarrow> string option" where
  "re_match [] s = Some s"
| "re_match (Lit c # p) [] = None"
| "re_match (Lit c # p) (x # xs) = (if x = c then re_match p xs else None)"
| "re_match (SpaceStar # p) [] = re_match p []"
| "re_match (SpaceStar # p) (x # xs) =
     (if isspace x
      then (case re_match (SpaceStar # p) xs of
              Some r \<Rightarrow> Some r
            | None \<Rightarrow> re_match p (x # xs))
      else re_match p (x # xs))"
| "re_match (EndAnchor # p) s =
     (if s = [] \<or> s = [CHR 0x0A] then re_match p s else None)"

text \<open>
  \<^verbatim>\<open>re.sub(p, '', s)\<close>: the text is scanned from the left; where the pattern matches,
  the match is dropped and the scan goes on behind it; elsewhere the character is kept.
  An empty match replaced by the empty string changes nothing, so the scan keeps the
  character and moves on.
\<close>

fun re_sub :: "rx list \<Rightarrow> string \<Rightarrow> string" where
  "re_sub p [] = []"
| "re_sub p (x # xs) =
     (case re_match p (x # xs) of
        Some r \<Rightarrow> if length r < length (x # xs) then re_sub p r else x # re_sub p xs
      | None \<Rightarrow> x # re_sub p xs)"

subsection \<open>The sanitizer\<close>

definition sql_fence :: string where
  "sql_fence = ''```sql''"

definition fence :: string where
  "fence = ''```''"

text \<open>\<^verbatim>\<open>r'```sql\s*'\<close>\<close>

definition fence_sql_rx :: "rx list" where
  "fence_sql_rx = map Lit sql_fence @ [SpaceStar]"

text \<open>\<^verbatim>\<open>r'```\s*$'\<close>\<close>

definition fence_end_rx :: "rx list" where
  "fence_end_rx = map Lit fence @ [SpaceStar, EndAnchor]"

definition clean_sql :: "string \<Rightarrow> string" where
  "clean_sql sql = strip (re_sub fence_end_rx (re_sub fence_sql_rx sql))"

text \<open>
  What the sanitizer does, said without regular expressions. First every occurrence of
  the marker \<^verbatim>\<open>```sql\<close> in the text goes, each with the white space behind it, in one
  pass from the left. Then, if the text without its trailing white space ends in
  \<^verbatim>\<open>```\<close>, that one fence and the white space behind it go. Then the text is trimmed.
\<close>

function spec_delete_sql_markers :: "string \<Rightarrow> string" where
  "spec_delete_sql_markers [] = []"
| "spec_delete_sql_markers (c # cs) =
     (if prefix sql_fence (c # cs)
      then spec_delete_sql_markers (dropWhile isspace (drop (length sql_fence) (c # cs)))
      else c # spec_delete_sql_markers cs)"
  by pat_completeness auto
termination
  by (relation "measure length")
     (auto simp: sql_fence_def intro: le_less_trans [OF length_dropWhile_le])

definition spec_drop_trailing_fence :: "string \<Rightarrow> string" where
  "spec_drop_trailing_fence s =
     (if suffix fence (rstrip s)
      then take (length (rstrip s) - length fence) (rstrip s)
      else s)"

definition spec_sanitize :: "string \<Rightarrow> string" where
  "spec_sanitize s = strip (spec_drop_trailing_fence (spec_delete_sql_markers s))"

text \<open>No white space at either end.\<close>

definition trimmed :: "string \<Rightarrow> bool" where
  "trimmed s \<longleftrightarrow> s = [] \<or> (\<not> isspace (hd s) \<and> \<not> isspace (last s))"

subsection \<open>The prompt of \<^verbatim>\<open>enhance_query\<close>\<close>

definition MAX_RETRIES :: int where
  "MAX_RETRIES = 3"

definition RETRY_DELAY :: int where
  "RETRY_DELAY = 1"

text \<open>\<^verbatim>\<open>self.schema\<close>, line by line.\<close>

definition schema :: string where
  \<open>schema = concat
    [''\<newline>'',
     ''        Tables and their relationships:\<newline>'',
     ''        \<newline>'',
     ''        ordertab (order_id, client_id, customer_id, lead_id, status, type, created, updated, deleted)\<newline>'',
     ''        - Links to customer through customer_id\<newline>'',
     ''        - Links to lead through lead_id\<newline>'',
     ''        \<newline>'',
     ''        customer (customer_id, client_id, name, email, phone, income_group, marital_status, source)\<newline>'',
     ''        - Referenced by ordertab\<newline>'',
     ''        \<newline>'',
     ''        lead (lead_id, client_id, user_id, name, email, phone, status, source, income)\<newline>'',
     ''        - Referenced by ordertab\<newline>'',
     ''        - Has followups in leadfollowup\<newline>'',
     ''        \<newline>'',
     ''        product (product_id, client_id, name, price, sale_commission, status, type)\<newline>'',
     ''        - Used in order_product_mapping and leadproduct\<newline>'',
     ''        \<newline>'',
     ''        order_product_mapping (id, order_id, product_id, product_quantity, rate)\<newline>'',
     ''        - Links orders to products\<newline>'',
     ''        '']\<close>

text \<open>The f-string of \<^verbatim>\<open>enhance_query\<close>, line by line.\<close>

definition enhance_template :: "string \<Rightarrow> int \<Rightarrow> string" where
  \<open>enhance_template natural_query attempt = concat
    [''\<newline>'',
     ''        Given this database schema:\<newline>'',
     ''        '', schema, ''\<newline>'',
     ''        \<newline>'',
     ''        Important notes:\<newline>'',
     ''        1. Sample data is from Jan-Mar 2024, use this date range for "current" queries\<newline>'',
     ''        2. Use proper JOIN conditions and handle NULL values\<newline>'',
     ''        3. For revenue calculations, use product_quantity * rate\<newline>'',
     ''        4. Always check deleted = false or IS NULL where applicable\<newline>'',
     ''        5. Use CAST for decimal calculations\<newline>'',
     ''        \<newline>'',
     ''        This is attempt '', str_int attempt, '' of '', str_int MAX_RETRIES, ''.\<newline>'',
     ''        If previous attempts failed, generate a different variation of the query.\<newline>'',
     ''        \<newline>'',
     ''        Convert this business question to PostgreSQL (return ONLY the SQL): '', natural_query, ''\<newline>'',
     ''        \<newline>'',
     ''        Important schema and PostgreSQL notes:\<newline>'',
     ''        - User table is named 'bizuser' (not 'users')\<newline>'',
     ''        - User fields are first_name, last_name (not name)\<newline>'',
     ''        - Lead status values are: NEW, IN_PROGRESS, QUALIFIED, CONVERTED\<newline>'',
     ''        - Order status values are: NEW, IN_PROGRESS, COMPLETED, DELIVERED\<newline>'',
     ''        - For decimal calculations, use CAST(value AS numeric(10,2))\<newline>'',
     ''        - For aggregations with decimals, use CAST(SUM/AVG as numeric(10,2))\<newline>'',
     ''        '']\<close>

definition this_month_note :: string where
  "this_month_note = ''\<newline>Note: Use January 2024 as 'this month' for the sample data.''"

definition this_month :: string where
  "this_month = ''this month''"

definition enhance_prompt :: "string \<Rightarrow> int \<Rightarrow> string" where
  "enhance_prompt natural_query attempt =
     (if sublist this_month (lower natural_query)
      then enhance_template natural_query attempt @ this_month_note
      else enhance_template natural_query attempt)"

definition sql_system_prompt :: string where
  "sql_system_prompt = ''You are a SQL expert. Return ONLY the SQL query without any markdown formatting or explanations.''"

text \<open>The f-string of \<^verbatim>\<open>generate_insights\<close>; the first argument is the text that
  \<^verbatim>\<open>json.dumps\<close> makes of the results.\<close>

definition insight_template :: "string \<Rightarrow> string \<Rightarrow> string" where
  \<open>insight_template dumped_results query = concat
    [''\<newline>'',
     ''        Analyze these query results for the question: "'', query, ''"\<newline>'',
     ''        \<newline>'',
     ''        Data:\<newline>'',
     ''        '', dumped_results, ''\<newline>'',
     ''        \<newline>'',
     ''        Provide:\<newline>'',
     ''        1. Key metrics and their significance\<newline>'',
     ''        2. Notable patterns or trends\<newline>'',
     ''        3. Business implications\<newline>'',
     ''        4. Potential action items\<newline>'',
     ''        \<newline>'',
     ''        Keep insights concise and actionable.\<newline>'',
     ''        '']\<close>

definition insights_system_prompt :: string where
  "insights_system_prompt = ''You are a business analyst providing concise, actionable insights.''"

subsection \<open>Values, configuration and the outside world\<close>

type_synonym exn = string

text \<open>A cell of a result row, and a row as \<^verbatim>\<open>dict(zip(columns, row))\<close> makes it:
  keys in the order of their first insertion, a repeated column keeping its last value.\<close>

datatype sqlval = SqlNull | SqlInt int | SqlText string

type_synonym record_map = "(string \<times> sqlval) list"

definition dict_zip :: "string list \<Rightarrow> sqlval list \<Rightarrow> record_map" where
  "dict_zip columns r = foldl (\<lambda>d (k, v). AList.update k v d) [] (zip columns r)"

text \<open>The values that \<^verbatim>\<open>process_query\<close> puts into the dictionary it returns.\<close>

datatype pyval = PyStr string | PyInt int | PyNone | PyRows "record_map list"

type_synonym pydict = "(string \<times> pyval) list"

text \<open>\<^verbatim>\<open>self.db_config\<close> and the variable \<^verbatim>\<open>OPENAI_API_KEY\<close>: \<^verbatim>\<open>os.getenv\<close>
  gives \<^verbatim>\<open>None\<close> for a variable that is not set.\<close>

record config =
  host :: "string option"
  database :: "string option"
  user :: "string option"
  password :: "string option"
  port :: string
  openai_api_key :: "string option"

text \<open>Python's truth value of \<^verbatim>\<open>None\<close> or a string.\<close>

definition truthy :: "string option \<Rightarrow> bool" where
  "truthy v = (case v of None \<Rightarrow> False | Some s \<Rightarrow> s \<noteq> [])"

text \<open>
  What the database driver does during one call of \<^verbatim>\<open>execute_query\<close>: each step
  may raise (\<open>Some\<close> message); \<^verbatim>\<open>cur.description\<close> is \<^verbatim>\<open>None\<close> after a statement
  that returns no rows. The two \<^verbatim>\<open>with\<close> blocks call the exit of their context
  manager, which may raise too. Whether that exit closes the cursor or the connection
  is the driver's affair and a parameter here: \<^verbatim>\<open>execute_query\<close> itself calls
  neither \<^verbatim>\<open>cur.close()\<close> nor \<^verbatim>\<open>conn.close()\<close>. In psycopg2 the exit of a cursor
  closes the cursor, and the exit of a connection commits or rolls back the
  transaction and leaves the connection open.
\<close>

record driver_run =
  connect_raises :: "exn option"
  cursor_raises :: "exn option"
  execute_raises :: "exn option"
  description :: "string list option"
  fetchall :: "exn + sqlval list list"
  cursor_exit_raises :: "exn option"
  connection_exit_raises :: "exn option"
  cursor_exit_closes :: bool
  connection_exit_closes :: bool

text \<open>
  The trace. \<open>AttemptStart\<close>, \<open>ExecuteQuery\<close> and \<open>GenerateInsights\<close> mark the
  entry into \<^verbatim>\<open>attempt_query_execution\<close>, \<^verbatim>\<open>execute_query\<close> and
  \<^verbatim>\<open>generate_insights\<close> with their arguments. \<open>LlmCall\<close> is a call of
  \<^verbatim>\<open>chat.completions.create\<close> with the system and the user message. \<open>DbConnect\<close> is
  the call of \<^verbatim>\<open>psycopg2.connect\<close>; \<open>ConnectionEnter\<close> and \<open>CursorEnter\<close> stand for a
  connection or cursor that was obtained and whose \<^verbatim>\<open>with\<close> block was entered,
  \<open>CursorExit\<close> and \<open>ConnectionExit\<close> for leaving that block, \<open>CursorClose\<close> and
  \<open>ConnectionClose\<close> for the cursor or the connection being closed; \<open>SqlExecute\<close> and
  \<open>FetchAll\<close> are \<^verbatim>\<open>cur.execute\<close> and \<^verbatim>\<open>cur.fetchall\<close>. \<open>Sleep\<close> is
  \<^verbatim>\<open>time.sleep\<close> and \<open>ClockRead\<close> is \<^verbatim>\<open>datetime.now()\<close>.
\<close>

datatype event =
    AttemptStart int
  | LlmCall string string
  | ExecuteQuery string
  | DbConnect
  | ConnectionEnter
  | CursorEnter
  | SqlExecute string
  | FetchAll
  | CursorExit
  | CursorClose
  | ConnectionExit
  | ConnectionClose
  | GenerateInsights "record_map list" string
  | Sleep int
  | ClockRead

text \<open>
  The outside world. \<open>llm k system user\<close> is the answer to the \<open>k\<close>-th call of
  \<^verbatim>\<open>chat.completions.create\<close> in the run (counted from 0): an exception, or the
  \<^verbatim>\<open>content\<close> of the first choice, which may be \<^verbatim>\<open>None\<close>. \<open>driver k sql\<close> is
  what the driver does in the \<open>k\<close>-th call of \<^verbatim>\<open>execute_query\<close>, \<open>clock k\<close> the
  \<open>k\<close>-th \<^verbatim>\<open>datetime.now().isoformat()\<close>, and \<open>json_dumps\<close> stands for
  \<^verbatim>\<open>json.dumps(results, indent=2, default=str)\<close>.
\<close>

record env =
  llm :: "nat \<Rightarrow> string \<Rightarrow> string \<Rightarrow> exn + string option"
  driver :: "nat \<Rightarrow> string \<Rightarrow> driver_run"
  clock :: "nat \<Rightarrow> string"
  json_dumps :: "record_map list \<Rightarrow> string"

fun is_llm_call :: "event \<Rightarrow> bool" where
  "is_llm_call (LlmCall system_text user_text) = True"
| "is_llm_call e = False"

fun is_generate_insights :: "event \<Rightarrow> bool" where
  "is_generate_insights (GenerateInsights results query) = True"
| "is_generate_insights e = False"

fun is_attempt_start :: "event \<Rightarrow> bool" where
  "is_attempt_start (AttemptStart attempt) = True"
| "is_attempt_start e = False"

fun is_execute_query :: "event \<Rightarrow> bool" where
  "is_execute_query (ExecuteQuery sql) = True"
| "is_execute_query e = False"

fun is_sleep :: "event \<Rightarrow> bool" where
  "is_sleep (Sleep seconds) = True"
| "is_sleep e = False"

definition llm_calls :: "event list \<Rightarrow> nat" where
  "llm_calls h = length (filter is_llm_call h)"

definition db_calls :: "event list \<Rightarrow> nat" where
  "db_calls h = length (filter is_execute_query h)"

definition clock_reads :: "event list \<Rightarrow> nat" where
  "clock_reads h = count_list h ClockRead"

text \<open>\<^verbatim>\<open>datetime.now().isoformat()\<close>\<close>

definition now_isoformat :: "env \<Rightarrow> event list \<Rightarrow> string \<times> event list" where
  "now_isoformat E h = (clock E (clock_reads h), h @ [ClockRead])"

text \<open>The messages of the two exceptions that a \<^verbatim>\<open>None\<close> causes:
  \<^verbatim>\<open>content.strip()\<close> on a missing content, and the loop over a missing
  \<^verbatim>\<open>cur.description\<close>.\<close>

definition none_has_no_strip :: exn where
  "none_has_no_strip =
     [CHR 0x27] @ ''NoneType'' @ [CHR 0x27] @ '' object has no attribute ''
       @ [CHR 0x27] @ ''strip'' @ [CHR 0x27]"

definition none_not_iterable :: exn where
  "none_not_iterable = [CHR 0x27] @ ''NoneType'' @ [CHR 0x27] @ '' object is not iterable''"

subsection \<open>\<^verbatim>\<open>enhance_query\<close>\<close>

definition enhance_query ::
  "env \<Rightarrow> event list \<Rightarrow> string \<Rightarrow> int \<Rightarrow> (exn + string) \<times> event list" where
  "enhance_query E h natural_query attempt =
     (let prompt = enhance_prompt natural_query attempt;
          h1 = h @ [LlmCall sql_system_prompt prompt]
      in case llm E (llm_calls h) sql_system_prompt prompt of
           Inl e \<Rightarrow> (Inl e, h1)
         | Inr None \<Rightarrow> (Inl none_has_no_strip, h1)
         | Inr (Some content) \<Rightarrow> (Inr (clean_sql (strip content)), h1))"

subsection \<open>\<^verbatim>\<open>execute_query\<close>\<close>

text \<open>The body of the inner \<^verbatim>\<open>with\<close>: the events it causes and what it returns.\<close>

definition cursor_body :: "driver_run \<Rightarrow> string \<Rightarrow> (exn + record_map list) \<times> event list" where
  "cursor_body d sql =
     (case execute_raises d of
        Some e \<Rightarrow> (Inl e, [SqlExecute sql])
      | None \<Rightarrow>
          (case description d of
             None \<Rightarrow> (Inl none_not_iterable, [SqlExecute sql])
           | Some columns \<Rightarrow>
               (case fetchall d of
                  Inl e \<Rightarrow> (Inl e, [SqlExecute sql, FetchAll])
                | Inr results \<Rightarrow>
                    (Inr (map (dict_zip columns) results), [SqlExecute sql, FetchAll]))))"

text \<open>\<^verbatim>\<open>with conn.cursor() as cur\<close>: if the cursor is made, its exit runs however the
  body ends, and an exception of the exit replaces the body's result. The cursor is
  closed there if the driver's exit does that.\<close>

definition with_cursor :: "driver_run \<Rightarrow> string \<Rightarrow> (exn + record_map list) \<times> event list" where
  "with_cursor d sql =
     (case cursor_raises d of
        Some e \<Rightarrow> (Inl e, [])
      | None \<Rightarrow>
          (let (r, ev) = cursor_body d sql
           in (case cursor_exit_raises d of Some e \<Rightarrow> Inl e | None \<Rightarrow> r,
               [CursorEnter] @ ev @ [CursorExit]
                 @ (if cursor_exit_closes d then [CursorClose] else []))))"

text \<open>\<^verbatim>\<open>with psycopg2.connect(**self.db_config) as conn\<close>: the same for the
  connection. Nothing else in the function closes it.\<close>

definition with_connection :: "driver_run \<Rightarrow> string \<Rightarrow> (exn + record_map list) \<times> event list" where
  "with_connection d sql =
     (case connect_raises d of
        Some e \<Rightarrow> (Inl e, [DbConnect])
      | None \<Rightarrow>
          (let (r, ev) = with_cursor d sql
           in (case connection_exit_raises d of Some e \<Rightarrow> Inl e | None \<Rightarrow> r,
               [DbConnect, ConnectionEnter] @ ev @ [ConnectionExit]
                 @ (if connection_exit_closes d then [ConnectionClose] else []))))"

definition execute_query ::
  "env \<Rightarrow> event list \<Rightarrow> string \<Rightarrow> (exn + record_map list) \<times> event list" where
  "execute_query E h sql =
     (let (r, ev) = with_connection (driver E (db_calls h) sql) sql;
          h1 = h @ [ExecuteQuery sql] @ ev
      in case r of
           Inl e \<Rightarrow> (Inl (''Database error: '' @ e), h1)
         | Inr results \<Rightarrow> (Inr results, h1))"

subsection \<open>\<^verbatim>\<open>generate_insights\<close>\<close>

definition generate_insights ::
  "env \<Rightarrow> event list \<Rightarrow> record_map list \<Rightarrow> string \<Rightarrow> (exn + string option) \<times> event list" where
  "generate_insights E h results query =
     (let insight_prompt = insight_template (json_dumps E results) query;
          h1 = h @ [GenerateInsights results query, LlmCall insights_system_prompt insight_prompt]
      in case llm E (llm_calls h) insights_system_prompt insight_prompt of
           Inl e \<Rightarrow> (Inl e, h1)
         | Inr insights \<Rightarrow> (Inr insights, h1))"

subsection \<open>\<^verbatim>\<open>attempt_query_execution\<close>\<close>

text \<open>The \<^verbatim>\<open>except\<close> branch: before the last attempt the error is swallowed, the
  thread sleeps and the function returns \<^verbatim>\<open>None\<close>; on the last attempt the error is
  raised again.\<close>

definition attempt_failed ::
  "event list \<Rightarrow> exn \<Rightarrow> int \<Rightarrow> (exn + pydict option) \<times> event list" where
  "attempt_failed h e attempt =
     (if attempt < MAX_RETRIES then (Inr None, h @ [Sleep RETRY_DELAY]) else (Inl e, h))"

definition pyval_of_content :: "string option \<Rightarrow> pyval" where
  "pyval_of_content c = (case c of None \<Rightarrow> PyNone | Some s \<Rightarrow> PyStr s)"

definition attempt_query_execution ::
  "env \<Rightarrow> event list \<Rightarrow> string \<Rightarrow> int \<Rightarrow> (exn + pydict option) \<times> event list" where
  "attempt_query_execution E h natural_query attempt =
     (case enhance_query E (h @ [AttemptStart attempt]) natural_query attempt of
        (Inl e, h1) \<Rightarrow> attempt_failed h1 e attempt
      | (Inr sql, h1) \<Rightarrow>
          (case execute_query E h1 sql of
             (Inl e, h2) \<Rightarrow> attempt_failed h2 e attempt
           | (Inr results, h2) \<Rightarrow>
               if results = [] then attempt_failed h2 ''Query returned no results'' attempt
               else
                 (case generate_insights E h2 results natural_query of
                    (Inl e, h3) \<Rightarrow> attempt_failed h3 e attempt
                  | (Inr insights, h3) \<Rightarrow>
                      (let (timestamp, h4) = now_isoformat E h3
                       in (Inr (Some [(''query'', PyStr natural_query),
                                      (''sql'', PyStr sql),
                                      (''results'', PyRows results),
                                      (''insights'', pyval_of_content insights),
                                      (''attempt'', PyInt attempt),
                                      (''timestamp'', PyStr timestamp)]), h4)))))"

subsection \<open>\<^verbatim>\<open>process_query\<close>\<close>

text \<open>\<^verbatim>\<open>range(a, b)\<close>\<close>

definition py_range :: "int \<Rightarrow> int \<Rightarrow> int list" where
  "py_range a b = [a..b - 1]"

text \<open>\<^verbatim>\<open>str(last_error)\<close>, where \<^verbatim>\<open>last_error\<close> may still be \<^verbatim>\<open>None\<close>.\<close>

definition str_error :: "exn option \<Rightarrow> string" where
  "str_error e = (case e of None \<Rightarrow> ''None'' | Some m \<Rightarrow> m)"

text \<open>
  The \<^verbatim>\<open>for\<close> loop over the attempts. It ends early with the first result that is
  true as a Python value (a dictionary with an entry); an attempt that raises sets
  \<^verbatim>\<open>last_error\<close>. The result is what the loop returned, if it did, and
  \<^verbatim>\<open>last_error\<close> after it.
\<close>

fun retry_loop ::
  "env \<Rightarrow> string \<Rightarrow> int list \<Rightarrow> exn option \<Rightarrow> event list
     \<Rightarrow> (pydict option \<times> exn option) \<times> event list" where
  "retry_loop E natural_query [] last_error h = ((None, last_error), h)"
| "retry_loop E natural_query (attempt # rest) last_error h =
     (case attempt_query_execution E h natural_query attempt of
        (Inr (Some result), h1) \<Rightarrow>
          if result \<noteq> [] then ((Some result, last_error), h1)
          else retry_loop E natural_query rest last_error h1
      | (Inr None, h1) \<Rightarrow> retry_loop E natural_query rest last_error h1
      | (Inl e, h1) \<Rightarrow> retry_loop E natural_query rest (Some e) h1)"

definition error_result ::
  "env \<Rightarrow> event list \<Rightarrow> string \<Rightarrow> string \<Rightarrow> pydict \<times> event list" where
  "error_result E h error_msg natural_query =
     (let (timestamp, h1) = now_isoformat E h
      in ([(''error'', PyStr error_msg),
           (''query'', PyStr natural_query),
           (''timestamp'', PyStr timestamp)], h1))"

text \<open>The body of the outer \<^verbatim>\<open>try\<close>.\<close>

definition process_query_body ::
  "config \<Rightarrow> env \<Rightarrow> event list \<Rightarrow> string \<Rightarrow> (exn + pydict) \<times> event list" where
  "process_query_body C E h natural_query =
     (if \<not> (truthy (host C) \<and> truthy (database C) \<and> truthy (user C) \<and> truthy (password C))
      then (Inl ''Database configuration is incomplete'', h)
      else if \<not> truthy (openai_api_key C)
      then (Inl ''OpenAI API key is not set'', h)
      else
        (case retry_loop E natural_query (py_range 1 (MAX_RETRIES + 1)) None h of
           ((Some result, last_error), h1) \<Rightarrow> (Inr result, h1)
         | ((None, last_error), h1) \<Rightarrow>
             (let error_msg = ''All '' @ str_int MAX_RETRIES
                                @ '' attempts failed. Last error: '' @ str_error last_error;
                  (d, h2) = error_result E h1 error_msg natural_query
              in (Inr d, h2))))"

definition process_query :: "config \<Rightarrow> env \<Rightarrow> event list \<Rightarrow> string \<Rightarrow> pydict \<times> event list" where
  "process_query C E h natural_query =
     (case process_query_body C E h natural_query of
        (Inr d, h1) \<Rightarrow> (d, h1)
      | (Inl e, h1) \<Rightarrow> error_result E h1 e natural_query)"

subsection \<open>Notions for stating the properties\<close>

text \<open>All four database credentials and the key of the generation service are there.\<close>

definition config_complete :: "config \<Rightarrow> bool" where
  "config_complete C \<longleftrightarrow>
     truthy (host C) \<and> truthy (database C) \<and> truthy (user C) \<and> truthy (password C)
       \<and> truthy (openai_api_key C)"

text \<open>The driver events of the call \<open>execute_query E h sql\<close>.\<close>

definition db_trace :: "env \<Rightarrow> event list \<Rightarrow> string \<Rightarrow> event list" where
  "db_trace E h sql = snd (with_connection (driver E (db_calls h) sql) sql)"

text \<open>An event is fine unless it is a call of \<^verbatim>\<open>generate_insights\<close> without rows.\<close>

fun insights_on_rows :: "event \<Rightarrow> bool" where
  "insights_on_rows (GenerateInsights results query) = (results \<noteq> [])"
| "insights_on_rows e = True"

text \<open>
  The two shapes of the dictionary that \<^verbatim>\<open>process_query\<close> returns: its keys in
  order, each with the kind of its value. The insights are the \<^verbatim>\<open>content\<close> of an
  answer of the generation service, a string or \<^verbatim>\<open>None\<close>.
\<close>

datatype kind = KStr | KInt | KRows | KStrOrNone

fun has_kind :: "pyval \<Rightarrow> kind \<Rightarrow> bool" where
  "has_kind (PyStr s) KStr = True"
| "has_kind (PyInt i) KInt = True"
| "has_kind (PyRows rs) KRows = True"
| "has_kind (PyStr s) KStrOrNone = True"
| "has_kind PyNone KStrOrNone = True"
| "has_kind v k = False"

definition has_shape :: "pydict \<Rightarrow> (string \<times> kind) list \<Rightarrow> bool" where
  "has_shape d shape \<longleftrightarrow>
     map fst d = map fst shape \<and> list_all2 has_kind (map snd d) (map snd shape)"

definition success_shape :: "(string \<times> kind) list" where
  "success_shape = [(''query'', KStr), (''sql'', KStr), (''results'', KRows),
                    (''insights'', KStrOrNone), (''attempt'', KInt), (''timestamp'', KStr)]"

definition failure_shape :: "(string \<times> kind) list" where
  "failure_shape = [(''error'', KStr), (''query'', KStr), (''timestamp'', KStr)]"

definition is_success :: "string \<Rightarrow> pydict \<Rightarrow> bool" where
  "is_success question d \<longleftrightarrow>
     has_shape d success_shape \<and> map_of d ''query'' = Some (PyStr question)
       \<and> map_of d ''error'' = None"

definition is_failure :: "string \<Rightarrow> pydict \<Rightarrow> bool" where
  "is_failure question d \<longleftrightarrow>
     has_shape d failure_shape \<and> map_of d ''query'' = Some (PyStr question)
       \<and> map_of d ''sql'' = None \<and> map_of d ''results'' = None \<and> map_of d ''insights'' = None"

subsection \<open>Example worlds\<close>

definition example_config :: config where
  "example_config =
     \<lparr>host = Some ''localhost'', database = Some ''crm'', user = Some ''analyst'',
      password = Some ''secret'', port = ''5432'', openai_api_key = Some ''sk-test''\<rparr>"

definition no_password_config :: config where
  "no_password_config = example_config\<lparr>password := None\<rparr>"

text \<open>A database that answers every query with no rows, one that cannot be reached, one
  that rejects the statement, and one that answers with five rows. The exits are those
  of psycopg2: the cursor's closes the cursor, the connection's does not close the
  connection.\<close>

definition no_rows_run :: driver_run where
  "no_rows_run =
     \<lparr>connect_raises = None, cursor_raises = None, execute_raises = None,
      description = Some [''count''], fetchall = Inr [],
      cursor_exit_raises = None, connection_exit_raises = None,
      cursor_exit_closes = True, connection_exit_closes = False\<rparr>"

definition unreachable_run :: driver_run where
  "unreachable_run = no_rows_run\<lparr>connect_raises := Some ''connection refused''\<rparr>"

definition bad_sql_run :: driver_run where
  "bad_sql_run = no_rows_run\<lparr>execute_raises := Some ''syntax error''\<rparr>"

definition five_rows_run :: driver_run where
  "five_rows_run =
     no_rows_run\<lparr>fetchall := Inr [[SqlInt 1], [SqlInt 2], [SqlInt 3], [SqlInt 4], [SqlInt 5]]\<rparr>"

definition five_rows :: "record_map list" where
  "five_rows = [[(''count'', SqlInt 1)], [(''count'', SqlInt 2)], [(''count'', SqlInt 3)],
                [(''count'', SqlInt 4)], [(''count'', SqlInt 5)]]"

definition env_no_rows :: env where
  "env_no_rows =
     \<lparr>llm = (\<lambda>k system_text user_text. Inr (Some ''SELECT count(*) FROM ordertab'')),
      driver = (\<lambda>k sql. no_rows_run),
      clock = (\<lambda>k. ''2024-02-01T09:00:00''),
      json_dumps = (\<lambda>results. ''[]'')\<rparr>"

definition env_unreachable :: env where
  "env_unreachable = env_no_rows\<lparr>driver := (\<lambda>k sql. unreachable_run)\<rparr>"

definition env_bad_sql :: env where
  "env_bad_sql = env_no_rows\<lparr>driver := (\<lambda>k sql. bad_sql_run)\<rparr>"

text \<open>The first query fails in the database, the second returns five rows, and the third
  answer of the generation service is the summary.\<close>

definition env_second_try :: env where
  "env_second_try =
     \<lparr>llm = (\<lambda>k system_text user_text.
               if k = 2 then Inr (Some ''Orders are rising.'')
               else Inr (Some ''SELECT count(*) FROM ordertab'')),
      driver = (\<lambda>k sql. if k = 0 then bad_sql_run else five_rows_run),
      clock = (\<lambda>k. ''2024-02-01T09:00:00''),
      json_dumps = (\<lambda>results. ''[]'')\<rparr>"


section \<open>The sanitizer\<close>

subsection \<open>White space\<close>

lemma isspace_newline: "isspace (CHR 0x0A)"
  by (simp add: isspace_def)

lemma not_isspace_backtick: "\<not> isspace (CHR 0x60)"
  by (simp add: isspace_def)

lemma length_sql_fence: "length sql_fence = 6"
  by (simp add: sql_fence_def)

lemma length_fence: "length fence = 3"
  by (simp add: fence_def)

lemma rstrip_Nil: "rstrip [] = []"
  by (simp add: rstrip_def)

lemma rstrip_Cons:
  "rstrip (x # xs) =
     (if rstrip xs = [] then (if isspace x then [] else [x]) else x # rstrip xs)"
  by (auto simp: rstrip_def dropWhile_append dropWhile_eq_Nil_conv)

lemma rstrip_append_spaces: "list_all isspace w \<Longrightarrow> rstrip (t @ w) = rstrip t"
  by (simp add: rstrip_def dropWhile_append list_all_iff)

lemma rstrip_decomp: "\<exists>w. s = rstrip s @ w \<and> list_all isspace w"
proof -
  have "rev s = takeWhile isspace (rev s) @ dropWhile isspace (rev s)" by simp
  then have "s = rstrip s @ rev (takeWhile isspace (rev s))"
    unfolding rstrip_def by (metis rev_append rev_rev_ident)
  moreover have "list_all isspace (rev (takeWhile isspace (rev s)))"
    by (simp add: list_all_iff) (meson set_takeWhileD)
  ultimately show ?thesis by blast
qed

lemma length_rstrip_le: "length (rstrip s) \<le> length s"
  by (simp add: rstrip_def) (metis length_dropWhile_le length_rev)

lemma rstrip_last: "rstrip s = [] \<or> \<not> isspace (last (rstrip s))"
proof (cases "dropWhile isspace (rev s)")
  case Nil
  then show ?thesis by (simp add: rstrip_def)
next
  case (Cons a v)
  then have "\<not> isspace a" using hd_dropWhile [of isspace "rev s"] by simp
  with Cons show ?thesis by (simp add: rstrip_def)
qed

lemma rstrip_hd: "rstrip s \<noteq> [] \<Longrightarrow> hd (rstrip s) = hd s"
  by (cases s) (auto simp: rstrip_Cons rstrip_Nil split: if_splits)

lemma lstrip_hd: "lstrip s = [] \<or> \<not> isspace (hd (lstrip s))"
  unfolding lstrip_def by (metis hd_dropWhile)

lemma strip_trimmed: "trimmed (strip s)"
proof (cases "strip s = []")
  case True
  then show ?thesis by (simp add: trimmed_def)
next
  case False
  then have ne: "lstrip s \<noteq> []"
    by (auto simp: strip_def rstrip_def)
  have "hd (strip s) = hd (lstrip s)"
    using False unfolding strip_def by (rule rstrip_hd)
  with ne lstrip_hd [of s] rstrip_last [of "lstrip s"] False
  show ?thesis by (simp add: strip_def trimmed_def)
qed

lemma lstrip_id: "y = [] \<or> \<not> isspace (hd y) \<Longrightarrow> lstrip y = y"
  by (cases y) (auto simp: lstrip_def)

lemma rstrip_id: "y = [] \<or> \<not> isspace (last y) \<Longrightarrow> rstrip y = y"
  by (cases y rule: rev_cases) (auto simp: rstrip_def)

lemma strip_id: "trimmed y \<Longrightarrow> strip y = y"
  unfolding strip_def trimmed_def using lstrip_id [of y] rstrip_id [of y] by auto

lemma length_strip_le: "length (strip s) \<le> length s"
  unfolding strip_def lstrip_def
  by (rule order_trans [OF length_rstrip_le]) (rule length_dropWhile_le)

subsection \<open>The two patterns\<close>

lemma re_match_SpaceStar: "re_match [SpaceStar] s = Some (dropWhile isspace s)"
  by (induction s) auto

lemma re_match_SpaceStar_End:
  "re_match [SpaceStar, EndAnchor] s = (if list_all isspace s then Some [] else None)"
  by (induction s) (auto simp: isspace_newline)

lemma re_match_lits:
  "re_match (map Lit w @ p) s = (if prefix w s then re_match p (drop (length w) s) else None)"
proof (induction w arbitrary: s)
  case Nil
  then show ?case by simp
next
  case (Cons a w)
  then show ?case by (cases s) auto
qed

lemma re_match_fence_sql:
  "re_match fence_sql_rx s =
     (if prefix sql_fence s then Some (dropWhile isspace (drop (length sql_fence) s)) else None)"
  unfolding fence_sql_rx_def re_match_lits re_match_SpaceStar by simp

lemma re_match_fence_end:
  "re_match fence_end_rx s =
     (if prefix fence s \<and> list_all isspace (drop (length fence) s) then Some [] else None)"
  unfolding fence_end_rx_def re_match_lits re_match_SpaceStar_End by simp

subsection \<open>The substitutions are the two deletions\<close>

lemma re_sub_fence_sql: "re_sub fence_sql_rx s = spec_delete_sql_markers s"
proof (induction s rule: spec_delete_sql_markers.induct)
  case 1
  then show ?case by simp
next
  case (2 c cs)
  have len: "length (dropWhile isspace (drop (length sql_fence) (c # cs))) < length (c # cs)"
    by (rule le_less_trans [OF length_dropWhile_le]) (simp add: length_sql_fence)
  show ?case
  proof (cases "prefix sql_fence (c # cs)")
    case True
    with 2 len show ?thesis by (simp add: re_match_fence_sql)
  next
    case False
    with 2 show ?thesis by (simp add: re_match_fence_sql)
  qed
qed

lemma rstrip_fence: "rstrip fence = fence"
  by (simp add: rstrip_def fence_def not_isspace_backtick)

lemma re_sub_fence_end_Cons:
  "re_sub fence_end_rx (x # xs) =
     (if prefix fence (x # xs) \<and> list_all isspace (drop (length fence) (x # xs)) then []
      else x # re_sub fence_end_rx xs)"
  by (simp add: re_match_fence_end)

lemma re_sub_fence_end: "re_sub fence_end_rx s = spec_drop_trailing_fence s"
proof (induction s)
  case Nil
  then show ?case by (simp add: spec_drop_trailing_fence_def rstrip_def fence_def)
next
  case (Cons x xs)
  show ?case
  proof (cases "prefix fence (x # xs) \<and> list_all isspace (drop (length fence) (x # xs))")
    case True
    then obtain w where w: "x # xs = fence @ w" and sp: "list_all isspace w"
      by (auto simp: prefix_def)
    have "rstrip (x # xs) = fence"
      unfolding w using rstrip_append_spaces [OF sp] rstrip_fence by simp
    then have "spec_drop_trailing_fence (x # xs) = []"
      by (simp add: spec_drop_trailing_fence_def)
    with True show ?thesis by (simp add: re_sub_fence_end_Cons del: re_sub.simps)
  next
    case False
    have step: "spec_drop_trailing_fence (x # xs) = x # spec_drop_trailing_fence xs"
    proof (cases "rstrip xs = []")
      case True
      then have "length (rstrip (x # xs)) \<le> 1"
        by (simp add: rstrip_Cons)
      then have "\<not> suffix fence (rstrip (x # xs))"
        by (auto dest!: suffix_length_le simp: length_fence)
      moreover have "\<not> suffix fence (rstrip xs)"
        using True by (simp add: fence_def)
      ultimately show ?thesis by (simp add: spec_drop_trailing_fence_def)
    next
      case ne: False
      then have r: "rstrip (x # xs) = x # rstrip xs" by (simp add: rstrip_Cons)
      obtain w where w: "xs = rstrip xs @ w" and sp: "list_all isspace w"
        using rstrip_decomp by blast
      have neq: "fence \<noteq> x # rstrip xs"
      proof
        assume e: "fence = x # rstrip xs"
        then have "x # xs = fence @ w" using w by (metis append_Cons)
        then have "prefix fence (x # xs) \<and> drop (length fence) (x # xs) = w"
          by (simp add: prefix_def)
        with sp False show False by simp
      qed
      then have su: "suffix fence (x # rstrip xs) \<longleftrightarrow> suffix fence (rstrip xs)"
        by (simp add: suffix_Cons)
      show ?thesis
      proof (cases "suffix fence (rstrip xs)")
        case True
        then have "length fence \<le> length (rstrip xs)" by (auto dest!: suffix_length_le)
        then have "take (length (x # rstrip xs) - length fence) (x # rstrip xs)
                 = x # take (length (rstrip xs) - length fence) (rstrip xs)"
          by (simp add: take_Cons' length_fence)
        with True su r show ?thesis by (simp add: spec_drop_trailing_fence_def)
      next
        case False
        with su r show ?thesis by (simp add: spec_drop_trailing_fence_def)
      qed
    qed
    from False have "re_sub fence_end_rx (x # xs) = x # re_sub fence_end_rx xs"
      by (simp add: re_sub_fence_end_Cons del: re_sub.simps)
    with step Cons show ?thesis by simp
  qed
qed

lemma clean_sql_spec: "clean_sql x = spec_sanitize x"
  by (simp add: clean_sql_def spec_sanitize_def re_sub_fence_end re_sub_fence_sql)

lemma spec_sanitize_trimmed: "trimmed (spec_sanitize x)"
  unfolding spec_sanitize_def by (rule strip_trimmed)

subsection \<open>Every marker in the text goes\<close>

lemma not_prefix_border:
  assumes "a \<noteq> []" "\<not> prefix sql_fence a"
  shows "\<not> prefix sql_fence (a @ sql_fence @ b)"
proof (cases "length sql_fence \<le> length a")
  case True
  show ?thesis
  proof
    assume "prefix sql_fence (a @ sql_fence @ b)"
    then consider "prefix sql_fence a" | us where "sql_fence = a @ us"
      unfolding prefix_append [of sql_fence a] by blast
    then show False
    proof cases
      case 1
      with assms(2) show False by simp
    next
      case 2
      then have "length sql_fence = length a + length us" by (metis length_append)
      with True have "us = []" by simp
      with 2 assms(2) show False by simp
    qed
  qed
next
  case False
  show ?thesis
  proof
    assume p: "prefix sql_fence (a @ sql_fence @ b)"
    have "prefix a (a @ sql_fence @ b)" by simp
    from prefix_length_prefix [OF this p] False have "prefix a sql_fence" by simp
    then have "a \<in> set (prefixes sql_fence)" by simp
    with p assms show False by (auto simp: sql_fence_def)
  qed
qed

lemma dropWhile_before_fence:
  "dropWhile isspace (a @ sql_fence @ b) = dropWhile isspace a @ sql_fence @ b"
  by (induction a) (auto simp: sql_fence_def isspace_def)

lemma spec_delete_at_fence:
  "spec_delete_sql_markers (sql_fence @ r) = spec_delete_sql_markers (dropWhile isspace r)"
proof -
  obtain c cs where e: "sql_fence @ r = c # cs"
    by (cases "sql_fence @ r") (auto simp: sql_fence_def)
  have "prefix sql_fence (c # cs)" unfolding e [symmetric] by simp
  moreover have "drop (length sql_fence) (c # cs) = r" unfolding e [symmetric] by simp
  ultimately have "spec_delete_sql_markers (c # cs) = spec_delete_sql_markers (dropWhile isspace r)"
    by simp
  then show ?thesis unfolding e .
qed

lemma spec_delete_every_occurrence:
  "spec_delete_sql_markers (a @ sql_fence @ b)
     = spec_delete_sql_markers a @ spec_delete_sql_markers (lstrip b)"
proof (induction a rule: spec_delete_sql_markers.induct)
  case 1
  show ?case using spec_delete_at_fence [of b] by (simp add: lstrip_def)
next
  case (2 c cs)
  show ?case
  proof (cases "prefix sql_fence (c # cs)")
    case True
    then obtain r where r: "c # cs = sql_fence @ r" by (auto simp: prefix_def)
    have "spec_delete_sql_markers ((c # cs) @ sql_fence @ b)
        = spec_delete_sql_markers (dropWhile isspace (r @ sql_fence @ b))"
      unfolding r using spec_delete_at_fence [of "r @ sql_fence @ b"] by simp
    also have "dropWhile isspace (r @ sql_fence @ b) = dropWhile isspace r @ sql_fence @ b"
      by (rule dropWhile_before_fence)
    also have "spec_delete_sql_markers (dropWhile isspace r @ sql_fence @ b)
       = spec_delete_sql_markers (dropWhile isspace r) @ spec_delete_sql_markers (lstrip b)"
      using 2(1) [OF True] unfolding r by simp
    also have "spec_delete_sql_markers (dropWhile isspace r) = spec_delete_sql_markers (c # cs)"
      unfolding r by (rule spec_delete_at_fence [symmetric])
    finally show ?thesis .
  next
    case False
    then have "\<not> prefix sql_fence ((c # cs) @ sql_fence @ b)"
      by (intro not_prefix_border) simp_all
    with False 2(2) show ?thesis by simp
  qed
qed

lemma spec_drop_one_trailing_fence:
  assumes "list_all isspace w"
  shows "spec_drop_trailing_fence (t @ fence @ w) = t"
proof -
  have "rstrip (t @ fence @ w) = rstrip (t @ fence)"
    using rstrip_append_spaces [OF assms, of "t @ fence"] by simp
  also have "\<dots> = t @ fence"
    by (rule rstrip_id) (simp add: fence_def not_isspace_backtick)
  finally have "rstrip (t @ fence @ w) = t @ fence" .
  moreover have "suffix fence (t @ fence)" by (simp add: suffix_def)
  ultimately show ?thesis by (simp add: spec_drop_trailing_fence_def)
qed

subsection \<open>When a second pass changes nothing\<close>

lemma length_spec_delete_le: "length (spec_delete_sql_markers s) \<le> length s"
proof (induction s rule: spec_delete_sql_markers.induct)
  case 1
  then show ?case by simp
next
  case (2 c cs)
  have len: "length (dropWhile isspace (drop (length sql_fence) (c # cs))) < length (c # cs)"
    by (rule le_less_trans [OF length_dropWhile_le]) (simp add: length_sql_fence)
  with 2 show ?case by (cases "prefix sql_fence (c # cs)") auto
qed

lemma spec_delete_shrinks:
  "sublist sql_fence s \<Longrightarrow> length (spec_delete_sql_markers s) < length s"
proof (induction s)
  case Nil
  then show ?case by (simp add: sql_fence_def)
next
  case (Cons c cs)
  show ?case
  proof (cases "prefix sql_fence (c # cs)")
    case True
    have "length (dropWhile isspace (drop (length sql_fence) (c # cs))) < length (c # cs)"
      by (rule le_less_trans [OF length_dropWhile_le]) (simp add: length_sql_fence)
    with True show ?thesis
      using length_spec_delete_le
        [of "dropWhile isspace (drop (length sql_fence) (c # cs))"]
      by simp
  next
    case False
    with Cons.prems have "sublist sql_fence cs" by (simp add: sublist_Cons_right)
    with Cons.IH False show ?thesis by simp
  qed
qed

lemma spec_delete_id:
  "\<not> sublist sql_fence s \<Longrightarrow> spec_delete_sql_markers s = s"
proof (induction s)
  case Nil
  then show ?case by simp
next
  case (Cons c cs)
  then have "\<not> prefix sql_fence (c # cs)" and "\<not> sublist sql_fence cs"
    by (simp_all add: sublist_Cons_right)
  with Cons.IH show ?case by simp
qed

lemma length_spec_drop_le: "length (spec_drop_trailing_fence s) \<le> length s"
  using length_rstrip_le [of s] by (auto simp: spec_drop_trailing_fence_def)

lemma spec_drop_shrinks:
  "suffix fence (rstrip s) \<Longrightarrow> length (spec_drop_trailing_fence s) < length s"
  using length_rstrip_le [of s] suffix_length_le [of fence "rstrip s"]
  by (simp add: spec_drop_trailing_fence_def length_fence)

lemma spec_drop_id: "\<not> suffix fence (rstrip s) \<Longrightarrow> spec_drop_trailing_fence s = s"
  by (simp add: spec_drop_trailing_fence_def)

lemma spec_sanitize_fixpoint:
  assumes tr: "trimmed y"
  shows "spec_sanitize y = y \<longleftrightarrow> \<not> sublist sql_fence y \<and> \<not> suffix fence y"
proof
  assume fx: "spec_sanitize y = y"
  let ?a = "spec_delete_sql_markers y"
  let ?b = "spec_drop_trailing_fence ?a"
  have "length y = length (strip ?b)" using fx by (simp add: spec_sanitize_def)
  also have "\<dots> \<le> length ?b" by (rule length_strip_le)
  finally have yb: "length y \<le> length ?b" .
  have ba: "length ?b \<le> length ?a" by (rule length_spec_drop_le)
  have 1: "\<not> sublist sql_fence y"
    using spec_delete_shrinks [of y] yb ba by auto
  then have a: "?a = y" by (rule spec_delete_id)
  have "\<not> suffix fence (rstrip y)"
    using spec_drop_shrinks [of y] yb a by auto
  moreover have "rstrip y = y" using tr by (intro rstrip_id) (auto simp: trimmed_def)
  ultimately show "\<not> sublist sql_fence y \<and> \<not> suffix fence y" using 1 by simp
next
  assume h: "\<not> sublist sql_fence y \<and> \<not> suffix fence y"
  have r: "rstrip y = y" using tr by (intro rstrip_id) (auto simp: trimmed_def)
  have "spec_delete_sql_markers y = y" using h by (intro spec_delete_id) simp
  moreover have "spec_drop_trailing_fence y = y" using h r by (intro spec_drop_id) simp
  moreover have "strip y = y" using tr by (rule strip_id)
  ultimately show "spec_sanitize y = y" by (simp add: spec_sanitize_def)
qed

lemma fence_free_no_marker:
  assumes "\<not> sublist fence y"
  shows "\<not> sublist sql_fence y \<and> \<not> suffix fence y"
proof -
  have "sublist fence sql_fence" by (simp add: fence_def sql_fence_def)
  then have "sublist sql_fence y \<Longrightarrow> sublist fence y" by (rule sublist_order.order_trans)
  moreover have "suffix fence y \<Longrightarrow> sublist fence y" by simp
  ultimately show ?thesis using assms by blast
qed

text \<open>
  \<^bold>\<open>C9.\<close> \<^verbatim>\<open>clean_sql\<close> is three steps. The first deletes every occurrence of the
  marker \<^verbatim>\<open>```sql\<close> in its input, wherever it stands (anything may come before it,
  anything after it), together with the white space behind the marker. The second
  deletes one fence \<^verbatim>\<open>```\<close> that ends the text, with the white space behind it, and
  nothing before that fence; a text that does not end so is left as it is. The third
  trims, so the result has no white space at either end.
\<close>

theorem clean_sql_stages:
  "clean_sql x = strip (spec_drop_trailing_fence (spec_delete_sql_markers x))
   \<and> spec_delete_sql_markers (a @ sql_fence @ b)
       = spec_delete_sql_markers a @ spec_delete_sql_markers (lstrip b)
   \<and> (list_all isspace w \<longrightarrow> spec_drop_trailing_fence (t @ fence @ w) = t)
   \<and> (\<not> suffix fence (rstrip s) \<longrightarrow> spec_drop_trailing_fence s = s)
   \<and> trimmed (clean_sql x)"
  using clean_sql_spec [of x] spec_sanitize_trimmed [of x]
    spec_delete_every_occurrence [of a b] spec_drop_one_trailing_fence [of w t]
    spec_drop_id [of s]
  by (simp add: spec_sanitize_def)

theorem clean_sql_stages_witness:
  "list_all isspace ''\<newline>''
   \<and> spec_drop_trailing_fence (''SELECT 1\<newline>```'' @ fence @ ''\<newline>'') = ''SELECT 1\<newline>```''
   \<and> \<not> suffix fence (rstrip ''SELECT 1 '')
   \<and> spec_drop_trailing_fence ''SELECT 1 '' = ''SELECT 1 ''
   \<and> spec_delete_sql_markers (''a '' @ sql_fence @ '' b ```sql c'') = ''a b c''
   \<and> clean_sql ''```sql\<newline>SELECT 1\<newline>```'' = ''SELECT 1''"
proof -
  have sp: "list_all isspace ''\<newline>''"
    by (simp add: isspace_def)
  have ns: "\<not> suffix fence (rstrip ''SELECT 1 '')"
    by code_simp
  have v: "spec_delete_sql_markers ''a '' @ spec_delete_sql_markers (lstrip '' b ```sql c'') = ''a b c''"
    "strip (spec_drop_trailing_fence (spec_delete_sql_markers ''```sql\<newline>SELECT 1\<newline>```'')) = ''SELECT 1''"
    by code_simp+
  show ?thesis
    using clean_sql_stages [of "''```sql\<newline>SELECT 1\<newline>```''" "''a ''" "'' b ```sql c''"
        "''\<newline>''" "''SELECT 1\<newline>```''" "''SELECT 1 ''"] sp ns v
    by metis
qed

text \<open>
  \<^bold>\<open>C4.\<close> A second pass of \<^verbatim>\<open>clean_sql\<close> changes nothing exactly when the first
  pass left no marker \<^verbatim>\<open>```sql\<close> in its result and the result does not end in a
  fence \<^verbatim>\<open>```\<close>. In particular a text without any fence and without white space at
  its ends is returned as it is.
\<close>

theorem clean_sql_idempotent_iff:
  "(clean_sql (clean_sql x) = clean_sql x
      \<longleftrightarrow> \<not> sublist sql_fence (clean_sql x) \<and> \<not> suffix fence (clean_sql x))
   \<and> (trimmed y \<and> \<not> sublist fence y \<longrightarrow> clean_sql y = y)"
  using spec_sanitize_fixpoint [OF spec_sanitize_trimmed [of x]]
    spec_sanitize_fixpoint [of y] fence_free_no_marker [of y]
  by (auto simp: clean_sql_spec)

theorem clean_sql_idempotent_witness:
  "\<not> sublist sql_fence (clean_sql ''```sql\<newline>SELECT 1\<newline>```'')
   \<and> \<not> suffix fence (clean_sql ''```sql\<newline>SELECT 1\<newline>```'')
   \<and> clean_sql (clean_sql ''```sql\<newline>SELECT 1\<newline>```'') = clean_sql ''```sql\<newline>SELECT 1\<newline>```''
   \<and> trimmed ''SELECT 1'' \<and> \<not> sublist fence ''SELECT 1''
   \<and> clean_sql ''SELECT 1'' = ''SELECT 1''"
proof -
  have e: "clean_sql ''```sql\<newline>SELECT 1\<newline>```'' = ''SELECT 1''"
    by code_simp
  have h: "\<not> sublist sql_fence ''SELECT 1''" "\<not> suffix fence ''SELECT 1''"
    "trimmed ''SELECT 1''" "\<not> sublist fence ''SELECT 1''"
    by code_simp+
  show ?thesis
    using clean_sql_idempotent_iff [of "''```sql\<newline>SELECT 1\<newline>```''" "''SELECT 1''"] h
    unfolding e by simp
qed

text \<open>
  The sanitizer is not idempotent on every input: from a text that ends in two fences
  the first pass takes the last fence only, and the second pass takes the other.
\<close>

theorem clean_sql_not_idempotent:
  "clean_sql (clean_sql ''SELECT 1\<newline>```\<newline>```'') \<noteq> clean_sql ''SELECT 1\<newline>```\<newline>```''"
  by code_simp

section \<open>The prompt\<close>

lemma sublist_concat_drop: "sublist w (concat (drop k xs)) \<Longrightarrow> sublist w (concat xs)"
proof -
  assume a: "sublist w (concat (drop k xs))"
  have "concat xs = concat (take k xs) @ concat (drop k xs)"
    by (metis append_take_drop_id concat_append)
  with a show ?thesis by (metis sublist_append)
qed

lemma str_int_MAX_RETRIES: "str_int MAX_RETRIES = ''3''"
  by code_simp

lemma template_attempt_marker:
  "sublist (''attempt '' @ str_int n @ '' of '' @ str_int MAX_RETRIES) (enhance_template q n)"
  unfolding enhance_template_def
  by (rule sublist_concat_drop [where k = 13]) (simp add: sublist_Cons_right)

text \<open>
  \<^bold>\<open>C7.\<close> Whatever the question and the attempt number, the prompt contains the
  words \<^verbatim>\<open>attempt N of 3\<close>, with \<open>N\<close> the attempt number in decimal; so it does
  for the attempts 1, 2 and 3 that \<^verbatim>\<open>process_query\<close> makes.
\<close>

theorem enhance_prompt_attempt_marker:
  "sublist (''attempt '' @ str_int n @ '' of 3'') (enhance_prompt q n)"
  using template_attempt_marker [of n q]
  by (auto simp: enhance_prompt_def str_int_MAX_RETRIES sublist_append)

theorem enhance_prompt_attempt_marker_witness:
  "sublist ''attempt 1 of 3'' (enhance_prompt ''How many orders this month?'' 1)
   \<and> sublist ''attempt 2 of 3'' (enhance_prompt ''How many orders this month?'' 2)
   \<and> sublist ''attempt 3 of 3'' (enhance_prompt ''How many orders this month?'' 3)"
proof -
  have s: "str_int 1 = ''1''" "str_int 2 = ''2''" "str_int 3 = ''3''" by code_simp+
  show ?thesis
    using enhance_prompt_attempt_marker [of 1 "''How many orders this month?''"]
      enhance_prompt_attempt_marker [of 2 "''How many orders this month?''"]
      enhance_prompt_attempt_marker [of 3 "''How many orders this month?''"]
    by (simp add: s)
qed

lemma lower_this_month: "lower this_month = this_month"
  by code_simp

lemma sublist_lower: "sublist w q \<Longrightarrow> sublist (lower w) (lower q)"
proof -
  assume "sublist w q"
  then obtain ps ss where "q = ps @ w @ ss" by (auto simp: sublist_def)
  then have "lower q = lower ps @ lower w @ lower ss" by (simp add: lower_def)
  then show ?thesis unfolding sublist_def by blast
qed

lemma suffix_concat_last:
  assumes "suffix w (concat xs)" "w \<noteq> []" "xs \<noteq> []" "last xs \<noteq> []"
  shows "last w = last (last xs)"
proof -
  have "concat xs = concat (butlast xs) @ last xs"
    using assms(3) by (metis append_butlast_last_id concat_append concat.simps append_Nil2)
  then have "last (concat xs) = last (last xs)" using assms(4) by simp
  moreover obtain p where "concat xs = p @ w" using assms(1) by (auto simp: suffix_def)
  ultimately show ?thesis using assms(2) by simp
qed

lemma template_no_note: "\<not> suffix this_month_note (enhance_template q n)"
proof
  assume "suffix this_month_note (enhance_template q n)"
  then have "last this_month_note = CHR '' ''"
    unfolding enhance_template_def
    by (rule suffix_concat_last [THEN trans]) (simp_all add: this_month_note_def)
  then show False by (simp add: this_month_note_def)
qed

lemma note_iff:
  "suffix this_month_note (enhance_prompt q n) \<longleftrightarrow> sublist this_month (lower q)"
proof (cases "sublist this_month (lower q)")
  case True
  then show ?thesis by (simp add: enhance_prompt_def suffix_def)
next
  case False
  then show ?thesis by (simp add: enhance_prompt_def template_no_note)
qed

text \<open>
  \<^bold>\<open>C8.\<close> The prompt ends with the note that pins "this month" to January 2024
  exactly when the question, put into small letters, contains \<^verbatim>\<open>this month\<close>. A
  question that contains \<^verbatim>\<open>this month\<close> as it stands is such a question. With the
  note the prompt is the template followed by the note; without it the prompt is the
  template alone.
\<close>

theorem enhance_prompt_this_month:
  "(suffix this_month_note (enhance_prompt q n) \<longleftrightarrow> sublist this_month (lower q))
   \<and> (sublist this_month q \<longrightarrow> sublist this_month (lower q))
   \<and> (sublist this_month (lower q) \<longrightarrow>
        enhance_prompt q n = enhance_template q n @ this_month_note)
   \<and> (\<not> sublist this_month (lower q) \<longrightarrow> enhance_prompt q n = enhance_template q n)"
  using sublist_lower [of this_month q] note_iff [of q n]
  by (auto simp: lower_this_month enhance_prompt_def)

theorem enhance_prompt_this_month_witness:
  "sublist this_month ''How many orders this month?''
   \<and> suffix this_month_note (enhance_prompt ''How many orders this month?'' 1)
   \<and> enhance_prompt ''How many orders this month?'' 1
       = enhance_template ''How many orders this month?'' 1 @ this_month_note
   \<and> \<not> sublist this_month (lower ''How many orders in March?'')
   \<and> \<not> suffix this_month_note (enhance_prompt ''How many orders in March?'' 1)
   \<and> enhance_prompt ''How many orders in March?'' 1
       = enhance_template ''How many orders in March?'' 1"
proof -
  have a: "sublist this_month ''How many orders this month?''"
    and b: "\<not> sublist this_month (lower ''How many orders in March?'')"
    by code_simp+
  show ?thesis
    using enhance_prompt_this_month [of "''How many orders this month?''" 1]
      enhance_prompt_this_month [of "''How many orders in March?''" 1] a b
    by blast
qed

text \<open>
  The test is made on the question in small letters: a question that has the words in
  capitals does not contain \<^verbatim>\<open>this month\<close>, and its prompt carries the note.
\<close>

theorem this_month_in_capitals:
  "\<not> sublist ''this month'' ''How many orders This Month?''
   \<and> suffix this_month_note (enhance_prompt ''How many orders This Month?'' 1)"
proof -
  have "sublist this_month (lower ''How many orders This Month?'')" by code_simp
  then have "suffix this_month_note (enhance_prompt ''How many orders This Month?'' 1)"
    by (simp only: note_iff)
  moreover have "\<not> sublist ''this month'' ''How many orders This Month?''" by code_simp
  ultimately show ?thesis by simp
qed

section \<open>The query executor\<close>

lemma with_cursor_events:
  "set (snd (with_cursor d sql))
     \<subseteq> {CursorEnter, SqlExecute sql, FetchAll, CursorExit, CursorClose}"
  by (auto simp: with_cursor_def cursor_body_def split: option.splits sum.splits)

lemma with_connection_events:
  "set (snd (with_connection d sql))
     \<subseteq> {DbConnect, ConnectionEnter, CursorEnter, SqlExecute sql, FetchAll, CursorExit,
         CursorClose, ConnectionExit, ConnectionClose}"
  using with_cursor_events [of d sql]
  by (auto simp: with_connection_def split: option.splits prod.splits)

lemma filter_none: "(\<And>e. e \<in> set xs \<Longrightarrow> \<not> P e) \<Longrightarrow> filter P xs = []"
  by (induction xs) auto

lemma with_connection_filters:
  "filter is_llm_call (snd (with_connection d sql)) = []"
  "filter is_execute_query (snd (with_connection d sql)) = []"
  "filter is_attempt_start (snd (with_connection d sql)) = []"
  "filter is_sleep (snd (with_connection d sql)) = []"
  "filter is_generate_insights (snd (with_connection d sql)) = []"
  "count_list (snd (with_connection d sql)) ClockRead = 0"
  using with_connection_events [of d sql]
  by (auto intro!: filter_none simp: count_list_0_iff)

lemma execute_query_unfold:
  "execute_query E h sql =
     (case fst (with_connection (driver E (db_calls h) sql) sql) of
        Inl e \<Rightarrow> Inl (''Database error: '' @ e) | Inr results \<Rightarrow> Inr results,
      h @ ExecuteQuery sql # snd (with_connection (driver E (db_calls h) sql) sql))"
  by (simp add: execute_query_def split: prod.splits sum.splits)

lemma cursor_body_counts:
  "count_list (snd (cursor_body d sql)) CursorEnter = 0"
  "count_list (snd (cursor_body d sql)) CursorExit = 0"
  "count_list (snd (cursor_body d sql)) CursorClose = 0"
  "count_list (snd (cursor_body d sql)) ConnectionEnter = 0"
  "count_list (snd (cursor_body d sql)) ConnectionExit = 0"
  "count_list (snd (cursor_body d sql)) ConnectionClose = 0"
  "count_list (snd (cursor_body d sql)) DbConnect = 0"
  by (simp_all add: cursor_body_def split: option.splits sum.splits)

lemma with_cursor_counts:
  "count_list (snd (with_cursor d sql)) CursorEnter = (if cursor_raises d = None then 1 else 0)"
  "count_list (snd (with_cursor d sql)) CursorExit = (if cursor_raises d = None then 1 else 0)"
  "count_list (snd (with_cursor d sql)) CursorClose
     = (if cursor_raises d = None \<and> cursor_exit_closes d then 1 else 0)"
  "count_list (snd (with_cursor d sql)) ConnectionEnter = 0"
  "count_list (snd (with_cursor d sql)) ConnectionExit = 0"
  "count_list (snd (with_cursor d sql)) ConnectionClose = 0"
  "count_list (snd (with_cursor d sql)) DbConnect = 0"
  by (simp_all add: with_cursor_def split_beta cursor_body_counts split: option.splits)

lemma with_connection_counts:
  "count_list (snd (with_connection d sql)) DbConnect = 1"
  "count_list (snd (with_connection d sql)) ConnectionEnter
     = (if connect_raises d = None then 1 else 0)"
  "count_list (snd (with_connection d sql)) ConnectionExit
     = (if connect_raises d = None then 1 else 0)"
  "count_list (snd (with_connection d sql)) ConnectionClose
     = (if connect_raises d = None \<and> connection_exit_closes d then 1 else 0)"
  "count_list (snd (with_connection d sql)) CursorEnter
     = (if connect_raises d = None \<and> cursor_raises d = None then 1 else 0)"
  "count_list (snd (with_connection d sql)) CursorExit
     = (if connect_raises d = None \<and> cursor_raises d = None then 1 else 0)"
  "count_list (snd (with_connection d sql)) CursorClose
     = (if connect_raises d = None \<and> cursor_raises d = None \<and> cursor_exit_closes d
        then 1 else 0)"
  by (simp_all add: with_connection_def split_beta with_cursor_counts split: option.splits)

text \<open>
  What the two \<^verbatim>\<open>with\<close> blocks do give, for every driver: one call of
  \<^verbatim>\<open>psycopg2.connect\<close>; each block entered at most once and, if entered, left once,
  however the call ends; and nothing opened when connecting fails.
\<close>

lemma execute_query_with_blocks:
  "snd (execute_query E h sql) = h @ ExecuteQuery sql # db_trace E h sql
   \<and> count_list (db_trace E h sql) DbConnect = 1
   \<and> count_list (db_trace E h sql) ConnectionEnter
       = (if connect_raises (driver E (db_calls h) sql) = None then 1 else 0)
   \<and> count_list (db_trace E h sql) CursorEnter
       = (if connect_raises (driver E (db_calls h) sql) = None
             \<and> cursor_raises (driver E (db_calls h) sql) = None then 1 else 0)
   \<and> count_list (db_trace E h sql) ConnectionExit = count_list (db_trace E h sql) ConnectionEnter
   \<and> count_list (db_trace E h sql) CursorExit = count_list (db_trace E h sql) CursorEnter"
  unfolding db_trace_def
  by (simp add: execute_query_unfold with_connection_counts)

lemma execute_query_unreachable:
  "fst (execute_query env_unreachable [] ''SELECT 1'') = Inl ''Database error: connection refused''
   \<and> snd (execute_query env_unreachable [] ''SELECT 1'') = [ExecuteQuery ''SELECT 1'', DbConnect]"
  by (simp add: execute_query_unfold env_unreachable_def env_no_rows_def with_connection_def
      unreachable_run_def no_rows_run_def)

text \<open>
  \<^bold>\<open>C5.\<close> The claim is that every call closes its connection and its cursor on every
  exit path. \<^verbatim>\<open>execute_query\<close> closes nothing itself; it relies on the two
  \<^verbatim>\<open>with\<close> blocks. So the connection is closed exactly when the exit of the driver's
  connection context closes it, and with a driver whose exit does not (psycopg2's
  ends the transaction and leaves the connection open) every call that connects
  enters the connection's block once, leaves it once, and leaves the connection open,
  whether the body returns or raises. The cursor fares as its own exit decides.
\<close>

theorem execute_query_connection_not_closed:
  assumes "connect_raises (driver E (db_calls h) sql) = None"
    and "\<not> connection_exit_closes (driver E (db_calls h) sql)"
  shows "snd (execute_query E h sql) = h @ ExecuteQuery sql # db_trace E h sql
       \<and> count_list (db_trace E h sql) ConnectionEnter = 1
       \<and> count_list (db_trace E h sql) ConnectionExit = 1
       \<and> count_list (db_trace E h sql) ConnectionClose = 0
       \<and> count_list (db_trace E h sql) CursorClose
           = (if cursor_raises (driver E (db_calls h) sql) = None
                 \<and> cursor_exit_closes (driver E (db_calls h) sql) then 1 else 0)"
  using assms unfolding db_trace_def
  by (simp add: execute_query_unfold with_connection_counts)

text \<open>
  The failing input: a query against a database that answers, and one that the
  database rejects, both through psycopg2. Each call opens a connection and a cursor;
  the cursor is closed, the connection is not.
\<close>

theorem execute_query_connection_not_closed_witness:
  "connect_raises (driver env_no_rows (db_calls []) ''SELECT 1'') = None
   \<and> \<not> connection_exit_closes (driver env_no_rows (db_calls []) ''SELECT 1'')
   \<and> fst (execute_query env_no_rows [] ''SELECT 1'') = Inr []
   \<and> snd (execute_query env_no_rows [] ''SELECT 1'')
       = [ExecuteQuery ''SELECT 1'', DbConnect, ConnectionEnter, CursorEnter,
          SqlExecute ''SELECT 1'', FetchAll, CursorExit, CursorClose, ConnectionExit]
   \<and> count_list (db_trace env_no_rows [] ''SELECT 1'') ConnectionClose = 0
   \<and> fst (execute_query env_bad_sql [] ''SELEC 1'') = Inl ''Database error: syntax error''
   \<and> snd (execute_query env_bad_sql [] ''SELEC 1'')
       = [ExecuteQuery ''SELEC 1'', DbConnect, ConnectionEnter, CursorEnter,
          SqlExecute ''SELEC 1'', CursorExit, CursorClose, ConnectionExit]
   \<and> count_list (db_trace env_bad_sql [] ''SELEC 1'') ConnectionClose = 0"
proof -
  have d: "driver env_no_rows (db_calls []) ''SELECT 1'' = no_rows_run"
    "driver env_bad_sql (db_calls []) ''SELEC 1'' = bad_sql_run"
    by (simp_all add: env_bad_sql_def env_no_rows_def)
  have a: "connect_raises no_rows_run = None" "\<not> connection_exit_closes no_rows_run"
    "connect_raises bad_sql_run = None" "\<not> connection_exit_closes bad_sql_run"
    by (simp_all add: bad_sql_run_def no_rows_run_def)
  have r: "execute_query env_no_rows [] ''SELECT 1''
      = (Inr [], [ExecuteQuery ''SELECT 1'', DbConnect, ConnectionEnter, CursorEnter,
          SqlExecute ''SELECT 1'', FetchAll, CursorExit, CursorClose, ConnectionExit])"
    by (simp add: execute_query_unfold d with_connection_def with_cursor_def cursor_body_def
        no_rows_run_def)
  have b: "execute_query env_bad_sql [] ''SELEC 1''
      = (Inl ''Database error: syntax error'',
         [ExecuteQuery ''SELEC 1'', DbConnect, ConnectionEnter, CursorEnter,
          SqlExecute ''SELEC 1'', CursorExit, CursorClose, ConnectionExit])"
    by (simp add: execute_query_unfold d with_connection_def with_cursor_def cursor_body_def
        bad_sql_run_def no_rows_run_def)
  show ?thesis
    using execute_query_connection_not_closed [of env_no_rows "[]" "''SELECT 1''"]
      execute_query_connection_not_closed [of env_bad_sql "[]" "''SELEC 1''"] a
    unfolding d r b by simp
qed

section \<open>One attempt\<close>

lemma enhance_query_content:
  assumes "llm E (llm_calls h) sql_system_prompt (enhance_prompt q n) = Inr (Some c)"
  shows "enhance_query E h q n
         = (Inr (clean_sql (strip c)), h @ [LlmCall sql_system_prompt (enhance_prompt q n)])"
  using assms by (simp add: enhance_query_def)

lemma enhance_query_in_attempt:
  assumes "llm E (llm_calls h) sql_system_prompt (enhance_prompt q n) = Inr (Some c)"
  shows "enhance_query E (h @ [AttemptStart n]) q n
         = (Inr (clean_sql (strip c)),
            h @ [AttemptStart n, LlmCall sql_system_prompt (enhance_prompt q n)])"
  using enhance_query_content [of E "h @ [AttemptStart n]" q n c] assms
  by (simp add: llm_calls_def)

lemma db_calls_in_attempt:
  "db_calls (h @ [AttemptStart n, LlmCall sql_system_prompt (enhance_prompt q n)]) = db_calls h"
  by (simp add: db_calls_def)

lemma attempt_no_rows:
  assumes "llm E (llm_calls h) sql_system_prompt (enhance_prompt q n) = Inr (Some c)"
    and "fst (with_connection (driver E (db_calls h) (clean_sql (strip c))) (clean_sql (strip c)))
           = Inr []"
  shows "attempt_query_execution E h q n
         = attempt_failed
             (h @ [AttemptStart n, LlmCall sql_system_prompt (enhance_prompt q n),
                   ExecuteQuery (clean_sql (strip c))]
                @ snd (with_connection (driver E (db_calls h) (clean_sql (strip c)))
                         (clean_sql (strip c))))
             ''Query returned no results'' n"
  unfolding attempt_query_execution_def enhance_query_in_attempt [OF assms(1)]
  by (simp add: execute_query_unfold db_calls_in_attempt assms(2))

lemma attempt_db_error:
  assumes "llm E (llm_calls h) sql_system_prompt (enhance_prompt q n) = Inr (Some c)"
    and "fst (with_connection (driver E (db_calls h) (clean_sql (strip c))) (clean_sql (strip c)))
           = Inl m"
  shows "attempt_query_execution E h q n
         = attempt_failed
             (h @ [AttemptStart n, LlmCall sql_system_prompt (enhance_prompt q n),
                   ExecuteQuery (clean_sql (strip c))]
                @ snd (with_connection (driver E (db_calls h) (clean_sql (strip c)))
                         (clean_sql (strip c))))
             (''Database error: '' @ m) n"
  unfolding attempt_query_execution_def enhance_query_in_attempt [OF assms(1)]
  by (simp add: execute_query_unfold db_calls_in_attempt assms(2))

lemma attempt_success:
  assumes "llm E (llm_calls h) sql_system_prompt (enhance_prompt q n) = Inr (Some c)"
    and "fst (with_connection (driver E (db_calls h) (clean_sql (strip c))) (clean_sql (strip c)))
           = Inr rows"
    and "rows \<noteq> []"
    and "llm E (Suc (llm_calls h)) insights_system_prompt (insight_template (json_dumps E rows) q)
           = Inr insights"
  shows "attempt_query_execution E h q n
         = (Inr (Some [(''query'', PyStr q),
                       (''sql'', PyStr (clean_sql (strip c))),
                       (''results'', PyRows rows),
                       (''insights'', pyval_of_content insights),
                       (''attempt'', PyInt n),
                       (''timestamp'', PyStr (clock E (clock_reads h)))]),
            h @ [AttemptStart n, LlmCall sql_system_prompt (enhance_prompt q n),
                   ExecuteQuery (clean_sql (strip c))]
                @ snd (with_connection (driver E (db_calls h) (clean_sql (strip c)))
                         (clean_sql (strip c)))
                @ [GenerateInsights rows q,
                   LlmCall insights_system_prompt (insight_template (json_dumps E rows) q),
                   ClockRead])"
  unfolding attempt_query_execution_def enhance_query_in_attempt [OF assms(1)]
  using assms(3,4)
  by (simp add: execute_query_unfold db_calls_in_attempt assms(2) generate_insights_def
      llm_calls_def with_connection_filters now_isoformat_def clock_reads_def)

lemma py_range_attempts: "py_range 1 (MAX_RETRIES + 1) = [1, 2, 3]"
  by (simp add: py_range_def MAX_RETRIES_def upto.simps)

section \<open>The retry loop\<close>

text \<open>
  \<^bold>\<open>C1.\<close> The configuration is complete, and in each of the three attempts the
  generation service returns a text and the query made from it returns no rows. Then
  \<^verbatim>\<open>process_query\<close> returns the error dictionary whose message ends with the error
  of the third attempt, \<^verbatim>\<open>Query returned no results\<close>; there were three attempts, in
  order; the thread slept \<^verbatim>\<open>RETRY_DELAY\<close> twice; and \<^verbatim>\<open>generate_insights\<close> was
  not called.
\<close>

theorem process_query_all_attempts_empty:
  assumes cfg: "config_complete C"
    and g1: "llm E 0 sql_system_prompt (enhance_prompt q 1) = Inr (Some c1)"
    and d1: "fst (with_connection (driver E 0 (clean_sql (strip c1))) (clean_sql (strip c1)))
               = Inr []"
    and g2: "llm E 1 sql_system_prompt (enhance_prompt q 2) = Inr (Some c2)"
    and d2: "fst (with_connection (driver E 1 (clean_sql (strip c2))) (clean_sql (strip c2)))
               = Inr []"
    and g3: "llm E 2 sql_system_prompt (enhance_prompt q 3) = Inr (Some c3)"
    and d3: "fst (with_connection (driver E 2 (clean_sql (strip c3))) (clean_sql (strip c3)))
               = Inr []"
  shows "fst (process_query C E [] q)
           = [(''error'', PyStr ''All 3 attempts failed. Last error: Query returned no results''),
              (''query'', PyStr q),
              (''timestamp'', PyStr (clock E 0))]
       \<and> filter is_attempt_start (snd (process_query C E [] q))
           = [AttemptStart 1, AttemptStart 2, AttemptStart 3]
       \<and> int (length (filter is_attempt_start (snd (process_query C E [] q)))) = MAX_RETRIES
       \<and> filter is_sleep (snd (process_query C E [] q)) = [Sleep RETRY_DELAY, Sleep RETRY_DELAY]
       \<and> int (length (filter is_sleep (snd (process_query C E [] q)))) = MAX_RETRIES - 1
       \<and> filter is_generate_insights (snd (process_query C E [] q)) = []"
proof -
  define ev1 where "ev1 = [AttemptStart 1, LlmCall sql_system_prompt (enhance_prompt q 1),
                   ExecuteQuery (clean_sql (strip c1))]
                @ snd (with_connection (driver E 0 (clean_sql (strip c1))) (clean_sql (strip c1)))
                @ [Sleep RETRY_DELAY]"
  define ev2 where "ev2 = [AttemptStart 2, LlmCall sql_system_prompt (enhance_prompt q 2),
                   ExecuteQuery (clean_sql (strip c2))]
                @ snd (with_connection (driver E 1 (clean_sql (strip c2))) (clean_sql (strip c2)))
                @ [Sleep RETRY_DELAY]"
  define ev3 where "ev3 = [AttemptStart 3, LlmCall sql_system_prompt (enhance_prompt q 3),
                   ExecuteQuery (clean_sql (strip c3))]
                @ snd (with_connection (driver E 2 (clean_sql (strip c3))) (clean_sql (strip c3)))"
  have n1: "llm_calls ev1 = 1" "db_calls ev1 = 1"
    by (simp_all add: ev1_def llm_calls_def db_calls_def with_connection_filters)
  have n2: "llm_calls (ev1 @ ev2) = 2" "db_calls (ev1 @ ev2) = 2"
    using n1 by (simp_all add: ev2_def llm_calls_def db_calls_def with_connection_filters)
  have a1: "attempt_query_execution E [] q 1 = (Inr None, ev1)"
    using attempt_no_rows [of E "[]" q 1 c1] g1 d1
    by (simp add: llm_calls_def db_calls_def attempt_failed_def MAX_RETRIES_def ev1_def)
  have a2: "attempt_query_execution E ev1 q 2 = (Inr None, ev1 @ ev2)"
    using attempt_no_rows [of E ev1 q 2 c2] g2 d2 n1
    by (simp add: attempt_failed_def MAX_RETRIES_def ev2_def)
  have a3: "attempt_query_execution E (ev1 @ ev2) q 3
              = (Inl ''Query returned no results'', ev1 @ ev2 @ ev3)"
    using attempt_no_rows [of E "ev1 @ ev2" q 3 c3] g3 d3 n2
    by (simp add: attempt_failed_def MAX_RETRIES_def ev3_def)
  have loop: "retry_loop E q [1, 2, 3] None []
                = ((None, Some ''Query returned no results''), ev1 @ ev2 @ ev3)"
    by (simp add: a1 a2 a3)
  have c: "clock_reads (ev1 @ ev2 @ ev3) = 0"
    by (simp add: clock_reads_def ev1_def ev2_def ev3_def with_connection_filters)
  have run: "process_query C E [] q
      = ([(''error'', PyStr ''All 3 attempts failed. Last error: Query returned no results''),
          (''query'', PyStr q),
          (''timestamp'', PyStr (clock E 0))], ev1 @ ev2 @ ev3 @ [ClockRead])"
    using cfg
    by (simp add: process_query_def process_query_body_def config_complete_def py_range_attempts
        loop error_result_def now_isoformat_def c str_int_MAX_RETRIES str_error_def
        del: retry_loop.simps)
  show ?thesis
    unfolding run
    by (simp add: ev1_def ev2_def ev3_def with_connection_filters MAX_RETRIES_def)
qed

lemma example_config_complete: "config_complete example_config"
  by (simp add: config_complete_def example_config_def truthy_def)

lemma no_rows_run_result: "fst (with_connection no_rows_run sql) = Inr []"
  by (simp add: with_connection_def with_cursor_def cursor_body_def no_rows_run_def)

lemma bad_sql_run_result: "fst (with_connection bad_sql_run sql) = Inl ''syntax error''"
  by (simp add: with_connection_def with_cursor_def cursor_body_def bad_sql_run_def
      no_rows_run_def)

lemma five_rows_run_result: "fst (with_connection five_rows_run sql) = Inr five_rows"
  by (simp add: with_connection_def with_cursor_def cursor_body_def five_rows_run_def
      no_rows_run_def five_rows_def dict_zip_def)

theorem process_query_all_attempts_empty_witness:
  "config_complete example_config
   \<and> llm env_no_rows 2 sql_system_prompt (enhance_prompt ''How many orders this month?'' 3)
       = Inr (Some ''SELECT count(*) FROM ordertab'')
   \<and> fst (with_connection (driver env_no_rows 2 (clean_sql (strip ''SELECT count(*) FROM ordertab'')))
             (clean_sql (strip ''SELECT count(*) FROM ordertab''))) = Inr []
   \<and> fst (process_query example_config env_no_rows [] ''How many orders this month?'')
       = [(''error'', PyStr ''All 3 attempts failed. Last error: Query returned no results''),
          (''query'', PyStr ''How many orders this month?''),
          (''timestamp'', PyStr ''2024-02-01T09:00:00'')]
   \<and> filter is_sleep (snd (process_query example_config env_no_rows [] ''How many orders this month?''))
       = [Sleep 1, Sleep 1]"
proof -
  have g: "\<And>k p. llm env_no_rows k sql_system_prompt p = Inr (Some ''SELECT count(*) FROM ordertab'')"
    by (simp add: env_no_rows_def)
  have d: "\<And>k sql. fst (with_connection (driver env_no_rows k sql) sql) = Inr []"
    by (simp add: env_no_rows_def no_rows_run_result)
  have t: "clock env_no_rows 0 = ''2024-02-01T09:00:00''"
    by (simp add: env_no_rows_def)
  show ?thesis
    using process_query_all_attempts_empty [OF example_config_complete g d g d g d,
        of "''How many orders this month?''"]
      example_config_complete g d
    by (simp add: t RETRY_DELAY_def)
qed

lemma second_attempt_run:
  assumes cfg: "config_complete C"
    and g1: "llm E 0 sql_system_prompt (enhance_prompt q 1) = Inr (Some c1)"
    and d1: "fst (with_connection (driver E 0 (clean_sql (strip c1))) (clean_sql (strip c1)))
               = Inl m"
    and g2: "llm E 1 sql_system_prompt (enhance_prompt q 2) = Inr (Some c2)"
    and d2: "fst (with_connection (driver E 1 (clean_sql (strip c2))) (clean_sql (strip c2)))
               = Inr rows"
    and ne: "rows \<noteq> []"
    and ins: "llm E 2 insights_system_prompt (insight_template (json_dumps E rows) q)
               = Inr insights"
  shows "process_query C E [] q
           = ([(''query'', PyStr q),
               (''sql'', PyStr (clean_sql (strip c2))),
               (''results'', PyRows rows),
               (''insights'', pyval_of_content insights),
               (''attempt'', PyInt 2),
               (''timestamp'', PyStr (clock E 0))],
              ([AttemptStart 1, LlmCall sql_system_prompt (enhance_prompt q 1),
                ExecuteQuery (clean_sql (strip c1))]
               @ snd (with_connection (driver E 0 (clean_sql (strip c1))) (clean_sql (strip c1)))
               @ [Sleep RETRY_DELAY])
              @ AttemptStart 2
              # ([LlmCall sql_system_prompt (enhance_prompt q 2), ExecuteQuery (clean_sql (strip c2))]
                 @ snd (with_connection (driver E 1 (clean_sql (strip c2))) (clean_sql (strip c2)))
                 @ [GenerateInsights rows q,
                    LlmCall insights_system_prompt (insight_template (json_dumps E rows) q),
                    ClockRead]))"
proof -
  define ev1 where "ev1 = [AttemptStart 1, LlmCall sql_system_prompt (enhance_prompt q 1),
                   ExecuteQuery (clean_sql (strip c1))]
                @ snd (with_connection (driver E 0 (clean_sql (strip c1))) (clean_sql (strip c1)))
                @ [Sleep RETRY_DELAY]"
  define ev2 where "ev2 = [LlmCall sql_system_prompt (enhance_prompt q 2),
                   ExecuteQuery (clean_sql (strip c2))]
                @ snd (with_connection (driver E 1 (clean_sql (strip c2))) (clean_sql (strip c2)))
                @ [GenerateInsights rows q,
                   LlmCall insights_system_prompt (insight_template (json_dumps E rows) q),
                   ClockRead]"
  define result where "result = [(''query'', PyStr q),
              (''sql'', PyStr (clean_sql (strip c2))),
              (''results'', PyRows rows),
              (''insights'', pyval_of_content insights),
              (''attempt'', PyInt 2),
              (''timestamp'', PyStr (clock E 0))]"
  have n1: "llm_calls ev1 = 1" "db_calls ev1 = 1" "clock_reads ev1 = 0"
    by (simp_all add: ev1_def llm_calls_def db_calls_def clock_reads_def with_connection_filters)
  have a1: "attempt_query_execution E [] q 1 = (Inr None, ev1)"
    using attempt_db_error [of E "[]" q 1 c1 m] g1 d1
    by (simp add: llm_calls_def db_calls_def attempt_failed_def MAX_RETRIES_def ev1_def)
  have a2: "attempt_query_execution E ev1 q 2 = (Inr (Some result), ev1 @ AttemptStart 2 # ev2)"
    using attempt_success [of E ev1 q 2 c2 rows insights] g2 d2 ne ins n1
    by (simp add: ev2_def result_def numeral_2_eq_2)
  have "result \<noteq> []" by (simp add: result_def)
  then have loop: "retry_loop E q [1, 2, 3] None []
      = ((Some result, None), ev1 @ AttemptStart 2 # ev2)"
    by (simp add: a1 a2)
  have "process_query C E [] q = (result, ev1 @ AttemptStart 2 # ev2)"
    using cfg
    by (simp add: process_query_def process_query_body_def config_complete_def py_range_attempts
        loop del: retry_loop.simps)
  then show ?thesis
    unfolding result_def ev1_def ev2_def .
qed

text \<open>
  \<^bold>\<open>C2.\<close> The configuration is complete; in attempt 1 the generation service returns
  a text and the query made from it raises in the database; in attempt 2 the service
  returns a text, the query made from it returns five rows, and the service answers
  the request for insights. Then \<^verbatim>\<open>process_query\<close> returns the dictionary of
  attempt 2, with \<^verbatim>\<open>attempt\<close> equal to 2; \<^verbatim>\<open>generate_insights\<close> was called once,
  with those rows, and not before attempt 2 began; there was no third attempt.
\<close>

theorem process_query_second_attempt_succeeds:
  assumes cfg: "config_complete C"
    and g1: "llm E 0 sql_system_prompt (enhance_prompt q 1) = Inr (Some c1)"
    and d1: "fst (with_connection (driver E 0 (clean_sql (strip c1))) (clean_sql (strip c1)))
               = Inl m"
    and g2: "llm E 1 sql_system_prompt (enhance_prompt q 2) = Inr (Some c2)"
    and d2: "fst (with_connection (driver E 1 (clean_sql (strip c2))) (clean_sql (strip c2)))
               = Inr rows"
    and five: "length rows = 5"
    and ins: "llm E 2 insights_system_prompt (insight_template (json_dumps E rows) q)
               = Inr insights"
  shows "fst (process_query C E [] q)
           = [(''query'', PyStr q),
              (''sql'', PyStr (clean_sql (strip c2))),
              (''results'', PyRows rows),
              (''insights'', pyval_of_content insights),
              (''attempt'', PyInt 2),
              (''timestamp'', PyStr (clock E 0))]
       \<and> filter is_generate_insights (snd (process_query C E [] q)) = [GenerateInsights rows q]
       \<and> filter is_generate_insights
             (takeWhile (\<lambda>e. e \<noteq> AttemptStart 2) (snd (process_query C E [] q))) = []
       \<and> filter is_attempt_start (snd (process_query C E [] q)) = [AttemptStart 1, AttemptStart 2]"
proof -
  have ne: "rows \<noteq> []" using five by auto
  have before:
    "\<forall>e \<in> set (snd (with_connection (driver E 0 (clean_sql (strip c1))) (clean_sql (strip c1)))).
       e \<noteq> AttemptStart 2"
    using with_connection_events [of "driver E 0 (clean_sql (strip c1))" "clean_sql (strip c1)"]
    by auto
  show ?thesis
    unfolding second_attempt_run [OF cfg g1 d1 g2 d2 ne ins]
    using before by (simp add: takeWhile_append2 takeWhile_tail with_connection_filters)
qed

theorem process_query_second_attempt_succeeds_witness:
  "config_complete example_config
   \<and> fst (with_connection (driver env_second_try 0 (clean_sql (strip ''SELECT count(*) FROM ordertab'')))
             (clean_sql (strip ''SELECT count(*) FROM ordertab''))) = Inl ''syntax error''
   \<and> fst (with_connection (driver env_second_try 1 (clean_sql (strip ''SELECT count(*) FROM ordertab'')))
             (clean_sql (strip ''SELECT count(*) FROM ordertab''))) = Inr five_rows
   \<and> length five_rows = 5
   \<and> fst (process_query example_config env_second_try [] ''How many orders this month?'')
       = [(''query'', PyStr ''How many orders this month?''),
          (''sql'', PyStr (clean_sql (strip ''SELECT count(*) FROM ordertab''))),
          (''results'', PyRows five_rows),
          (''insights'', PyStr ''Orders are rising.''),
          (''attempt'', PyInt 2),
          (''timestamp'', PyStr ''2024-02-01T09:00:00'')]
   \<and> filter is_generate_insights
         (snd (process_query example_config env_second_try [] ''How many orders this month?''))
       = [GenerateInsights five_rows ''How many orders this month?'']"
proof -
  have g1: "\<And>p. llm env_second_try 0 sql_system_prompt p = Inr (Some ''SELECT count(*) FROM ordertab'')"
    and g2: "\<And>p. llm env_second_try 1 sql_system_prompt p = Inr (Some ''SELECT count(*) FROM ordertab'')"
    and g3: "\<And>p. llm env_second_try 2 insights_system_prompt p = Inr (Some ''Orders are rising.'')"
    by (simp_all add: env_second_try_def)
  have d1: "\<And>sql. fst (with_connection (driver env_second_try 0 sql) sql) = Inl ''syntax error''"
    by (simp add: env_second_try_def bad_sql_run_result)
  have d2: "\<And>sql. fst (with_connection (driver env_second_try 1 sql) sql) = Inr five_rows"
    by (simp add: env_second_try_def five_rows_run_result)
  have five: "length five_rows = 5"
    by (simp add: five_rows_def)
  have t: "clock env_second_try 0 = ''2024-02-01T09:00:00''"
    by (simp add: env_second_try_def)
  show ?thesis
    using process_query_second_attempt_succeeds [OF example_config_complete g1 d1 g2 d2 five g3,
        of "''How many orders this month?''"]
      example_config_complete d1 d2 five
    by (simp add: t pyval_of_content_def)
qed

text \<open>
  \<^bold>\<open>C3.\<close> When a database credential (host, database, user or password) or the key
  of the generation service is missing or empty, \<^verbatim>\<open>process_query\<close> returns the error
  dictionary with the message of the check that failed, and the only thing it does is
  read the clock for the timestamp: no call of the generation service, no call of
  the database, no attempt, no sleep.
\<close>

theorem process_query_missing_configuration:
  assumes "\<not> config_complete C"
  shows "process_query C E h q
           = ([(''error'',
                PyStr (if truthy (host C) \<and> truthy (database C) \<and> truthy (user C)
                            \<and> truthy (password C)
                       then ''OpenAI API key is not set''
                       else ''Database configuration is incomplete'')),
               (''query'', PyStr q),
               (''timestamp'', PyStr (clock E (clock_reads h)))],
              h @ [ClockRead])"
  using assms
  by (auto simp: process_query_def process_query_body_def config_complete_def error_result_def
      now_isoformat_def)

theorem process_query_missing_configuration_witness:
  "\<not> config_complete no_password_config
   \<and> process_query no_password_config env_second_try [] ''How many orders this month?''
       = ([(''error'', PyStr ''Database configuration is incomplete''),
           (''query'', PyStr ''How many orders this month?''),
           (''timestamp'', PyStr ''2024-02-01T09:00:00'')],
          [ClockRead])"
proof -
  have n: "\<not> config_complete no_password_config"
    by (simp add: config_complete_def no_password_config_def example_config_def truthy_def)
  have p: "\<not> truthy (password no_password_config)"
    by (simp add: no_password_config_def example_config_def truthy_def)
  have t: "clock env_second_try (clock_reads []) = ''2024-02-01T09:00:00''"
    by (simp add: env_second_try_def)
  show ?thesis
    using process_query_missing_configuration [OF n, of env_second_try "[]"
        "''How many orders this month?''"] n p
    by (simp add: t)
qed

section \<open>What \<^verbatim>\<open>process_query\<close> returns\<close>

lemma has_kind_content: "has_kind (pyval_of_content c) KStrOrNone"
  by (cases c) (simp_all add: pyval_of_content_def)

lemma success_record:
  "is_success q [(''query'', PyStr q), (''sql'', PyStr sql), (''results'', PyRows results),
                 (''insights'', pyval_of_content insights), (''attempt'', PyInt n),
                 (''timestamp'', PyStr ts)]"
  by (simp add: is_success_def has_shape_def success_shape_def has_kind_content)

lemma failure_record:
  "is_failure q [(''error'', PyStr msg), (''query'', PyStr q), (''timestamp'', PyStr ts)]"
  by (simp add: is_failure_def has_shape_def failure_shape_def)

lemma not_both: "\<not> (is_success q d \<and> is_failure q d)"
  by (auto simp: is_success_def is_failure_def has_shape_def success_shape_def failure_shape_def)

lemma attempt_returns_success:
  assumes "attempt_query_execution E h q n = (Inr (Some d), h')"
  shows "is_success q d"
  using assms
  by (auto simp: attempt_query_execution_def attempt_failed_def now_isoformat_def success_record
      split: prod.splits sum.splits if_splits)

lemma retry_loop_returns_success:
  "retry_loop E q attempts err h = ((Some d, err'), h') \<Longrightarrow> is_success q d"
proof (induction attempts arbitrary: err h)
  case Nil
  then show ?case by simp
next
  case (Cons n attempts)
  obtain r h1 where a: "attempt_query_execution E h q n = (r, h1)"
    by (cases "attempt_query_execution E h q n")
  show ?case
  proof (cases r)
    case (Inl e)
    with Cons a show ?thesis by simp
  next
    case (Inr res)
    show ?thesis
    proof (cases res)
      case None
      with Cons a Inr show ?thesis by simp
    next
      case (Some d1)
      have "is_success q d1" using a Inr Some attempt_returns_success by blast
      with Cons a Inr Some show ?thesis by (auto split: if_splits)
    qed
  qed
qed

text \<open>
  \<^bold>\<open>C6.\<close> The dictionary that \<^verbatim>\<open>process_query\<close> returns has one of two shapes and
  never both. Either its keys are \<^verbatim>\<open>query\<close>, \<^verbatim>\<open>sql\<close>, \<^verbatim>\<open>results\<close>,
  \<^verbatim>\<open>insights\<close>, \<^verbatim>\<open>attempt\<close>, \<^verbatim>\<open>timestamp\<close>, with the question under
  \<^verbatim>\<open>query\<close> and no key \<^verbatim>\<open>error\<close>; or its keys are \<^verbatim>\<open>error\<close>, \<^verbatim>\<open>query\<close>,
  \<^verbatim>\<open>timestamp\<close>, with a string as error, the question under \<^verbatim>\<open>query\<close>, and no key
  \<^verbatim>\<open>sql\<close>, \<^verbatim>\<open>results\<close> or \<^verbatim>\<open>insights\<close>.
\<close>

theorem process_query_one_variant:
  "(is_success q (fst (process_query C E h q)) \<and> \<not> is_failure q (fst (process_query C E h q)))
   \<or> (is_failure q (fst (process_query C E h q)) \<and> \<not> is_success q (fst (process_query C E h q)))"
proof -
  have "is_success q (fst (process_query C E h q)) \<or> is_failure q (fst (process_query C E h q))"
    using retry_loop_returns_success [of E q "py_range 1 (MAX_RETRIES + 1)" None h]
    by (auto simp: process_query_def process_query_body_def error_result_def now_isoformat_def
        failure_record Let_def
        split: prod.splits option.splits sum.splits if_splits)
  with not_both [of q "fst (process_query C E h q)"] show ?thesis by blast
qed

theorem process_query_one_variant_witness:
  "is_failure ''How many orders?''
     (fst (process_query no_password_config env_no_rows [] ''How many orders?''))
   \<and> \<not> is_success ''How many orders?''
       (fst (process_query no_password_config env_no_rows [] ''How many orders?''))
   \<and> is_success ''How many orders?''
       (fst (process_query example_config env_second_try [] ''How many orders?''))
   \<and> \<not> is_failure ''How many orders?''
       (fst (process_query example_config env_second_try [] ''How many orders?''))"
proof -
  have "fst (process_query no_password_config env_no_rows [] ''How many orders?'')
          = [(''error'', PyStr ''Database configuration is incomplete''),
             (''query'', PyStr ''How many orders?''),
             (''timestamp'', PyStr ''2024-02-01T09:00:00'')]"
    by (simp add: process_query_def process_query_body_def error_result_def now_isoformat_def
        no_password_config_def example_config_def truthy_def env_no_rows_def)
  then have f: "is_failure ''How many orders?''
               (fst (process_query no_password_config env_no_rows [] ''How many orders?''))"
    by (simp add: failure_record)
  have g: "\<And>k p. k < 2 \<Longrightarrow> llm env_second_try k sql_system_prompt p
             = Inr (Some ''SELECT count(*) FROM ordertab'')"
    and i: "\<And>p. llm env_second_try 2 insights_system_prompt p = Inr (Some ''Orders are rising.'')"
    and d1: "\<And>sql. fst (with_connection (driver env_second_try 0 sql) sql) = Inl ''syntax error''"
    and d2: "\<And>sql. fst (with_connection (driver env_second_try 1 sql) sql) = Inr five_rows"
    by (simp_all add: env_second_try_def bad_sql_run_result five_rows_run_result)
  have ne: "five_rows \<noteq> []" by (simp add: five_rows_def)
  have s: "is_success ''How many orders?''
               (fst (process_query example_config env_second_try [] ''How many orders?''))"
    unfolding second_attempt_run [OF example_config_complete g d1 g d2 ne i, simplified]
    by (simp add: success_record)
  show ?thesis
    using process_query_one_variant [of "''How many orders?''" no_password_config env_no_rows "[]"]
      process_query_one_variant [of "''How many orders?''" example_config env_second_try "[]"] f s
    by blast
qed

section \<open>Insights need rows\<close>

lemma with_connection_insights: "list_all insights_on_rows (snd (with_connection d sql))"
  using with_connection_events [of d sql] by (auto simp: list_all_iff)

lemma attempt_failed_insights:
  "list_all insights_on_rows h \<Longrightarrow> list_all insights_on_rows (snd (attempt_failed h e n))"
  by (simp add: attempt_failed_def)

lemma enhance_query_trace:
  "snd (enhance_query E h q n) = h @ [LlmCall sql_system_prompt (enhance_prompt q n)]"
  by (simp add: enhance_query_def Let_def split: sum.splits option.splits)

lemma execute_query_trace:
  "snd (execute_query E h sql) = h @ ExecuteQuery sql # db_trace E h sql"
  by (simp add: execute_query_unfold db_trace_def)

lemma generate_insights_trace:
  "snd (generate_insights E h results q)
     = h @ [GenerateInsights results q,
            LlmCall insights_system_prompt (insight_template (json_dumps E results) q)]"
  by (simp add: generate_insights_def Let_def split: sum.splits)

lemma attempt_insights:
  assumes "list_all insights_on_rows h"
  shows "list_all insights_on_rows (snd (attempt_query_execution E h q n))"
proof -
  obtain r1 h1 where e: "enhance_query E (h @ [AttemptStart n]) q n = (r1, h1)"
    by (cases "enhance_query E (h @ [AttemptStart n]) q n")
  have h1: "list_all insights_on_rows h1"
    using enhance_query_trace [of E "h @ [AttemptStart n]" q n] assms by (simp add: e)
  show ?thesis
  proof (cases r1)
    case (Inl m)
    then show ?thesis
      using h1 by (simp add: attempt_query_execution_def e attempt_failed_insights)
  next
    case (Inr sql)
    obtain r2 h2 where x: "execute_query E h1 sql = (r2, h2)"
      by (cases "execute_query E h1 sql")
    have h2: "list_all insights_on_rows h2"
      using execute_query_trace [of E h1 sql] h1 with_connection_insights
      by (simp add: x db_trace_def)
    show ?thesis
    proof (cases r2)
      case (Inl m)
      then show ?thesis
        using h2 Inr by (simp add: attempt_query_execution_def e x attempt_failed_insights)
    next
      case rows: (Inr results)
      show ?thesis
      proof (cases "results = []")
        case True
        then show ?thesis
          using h2 Inr rows by (simp add: attempt_query_execution_def e x attempt_failed_insights)
      next
        case False
        obtain r3 h3 where g: "generate_insights E h2 results q = (r3, h3)"
          by (cases "generate_insights E h2 results q")
        have h3: "list_all insights_on_rows h3"
          using generate_insights_trace [of E h2 results q] h2 False by (simp add: g)
        show ?thesis
          using h3 Inr rows False
          by (cases r3)
             (simp_all add: attempt_query_execution_def e x g attempt_failed_insights
                now_isoformat_def)
      qed
    qed
  qed
qed

lemma retry_loop_insights:
  "list_all insights_on_rows h
     \<Longrightarrow> list_all insights_on_rows (snd (retry_loop E q attempts err h))"
proof (induction attempts arbitrary: err h)
  case Nil
  then show ?case by simp
next
  case (Cons n attempts)
  obtain r h1 where a: "attempt_query_execution E h q n = (r, h1)"
    by (cases "attempt_query_execution E h q n")
  have "list_all insights_on_rows h1"
    using attempt_insights [OF Cons.prems, of E q n] by (simp add: a)
  then show ?case
    using Cons.IH by (simp add: a split: sum.splits option.splits)
qed

text \<open>
  \<^bold>\<open>C10.\<close> If no event so far is a call of \<^verbatim>\<open>generate_insights\<close> on an empty
  list of results, then none is after \<^verbatim>\<open>process_query\<close> has run: every call it
  makes of \<^verbatim>\<open>generate_insights\<close> has at least one row. This holds for every
  configuration, generation service, database and question.
\<close>

theorem insights_never_on_empty_results:
  assumes "list_all insights_on_rows h"
  shows "list_all insights_on_rows (snd (process_query C E h q))"
proof -
  have "list_all insights_on_rows (snd (retry_loop E q (py_range 1 (MAX_RETRIES + 1)) None h))"
    using assms by (rule retry_loop_insights)
  then show ?thesis
    using assms
    by (auto simp: process_query_def process_query_body_def error_result_def now_isoformat_def
        split: prod.splits option.splits sum.splits)
qed

theorem insights_never_on_empty_results_witness:
  "list_all insights_on_rows []
   \<and> list_all insights_on_rows
       (snd (process_query example_config env_second_try [] ''How many orders this month?''))"
  using insights_never_on_empty_results [of "[]" example_config env_second_try
      "''How many orders this month?''"]
  by simp

end
